theory Spec2Isabelle
  imports Main "HOL-Library.Word"
begin

section \<open>The automation provider of chrome/browser/automation/automation\_provider.cc\<close>

text \<open>
  The provider receives commands over an IPC channel, resolves integer handles through
  resource trackers, and either replies at once or hands the pending reply message to a
  heap-allocated notification observer that replies later and deletes itself.

  C++ \<open>int\<close> values on which the code computes are 32-bit words; handles are opaque
  integers on which the provider never computes; pointers to browser-side objects are
  identities (natural numbers).
\<close>

type_synonym cint = "32 word"
type_synonym handle = int
type_synonym addr = nat
type_synonym NavigationController = nat
type_synonym Browser = nat
type_synonym LoginHandler = nat
type_synonym source = nat

subsection \<open>Resource trackers\<close>

text \<open>
  Modelled from the spec: the class AutomationResourceTracker
  (automation\_resource\_tracker.h) is not among the sources; only its callers are
  (\<open>tab_tracker_->ContainsHandle(handle)\<close>, \<open>window_tracker_->Add(win)\<close> with the
  comment "Add() returns the existing handle for the resource if any"). The spec, section
  4.1, gives the contract: \<open>Add\<close> returns the existing handle of a tracked resource and
  otherwise issues a handle unique in this tracker, \<open>ContainsHandle\<close> and \<open>GetResource\<close>
  look a handle up, \<open>Remove\<close> forgets a resource, and the tracker removes a resource
  when it is notified of its destruction.
\<close>

record 'r tracker =
  resource_to_handle :: "'r \<rightharpoonup> handle"
  handle_to_resource :: "handle \<rightharpoonup> 'r"
  last_handle :: handle

definition new_tracker :: "'r tracker" where
  "new_tracker = \<lparr>resource_to_handle = Map.empty, handle_to_resource = Map.empty,
                  last_handle = 0\<rparr>"

definition ContainsHandle :: "'r tracker \<Rightarrow> handle \<Rightarrow> bool" where
  "ContainsHandle t h = (handle_to_resource t h \<noteq> None)"

definition GetResource :: "'r tracker \<Rightarrow> handle \<Rightarrow> 'r option" where
  "GetResource t h = handle_to_resource t h"

definition Add :: "'r \<Rightarrow> 'r tracker \<Rightarrow> handle \<times> 'r tracker" where
  "Add resource t =
     (case resource_to_handle t resource of
        Some h \<Rightarrow> (h, t)
      | None \<Rightarrow>
          (let h = last_handle t + 1
           in (h, \<lparr>resource_to_handle = (resource_to_handle t)(resource \<mapsto> h),
                   handle_to_resource = (handle_to_resource t)(h \<mapsto> resource),
                   last_handle = h\<rparr>)))"

definition Remove :: "'r \<Rightarrow> 'r tracker \<Rightarrow> 'r tracker" where
  "Remove resource t =
     (case resource_to_handle t resource of
        None \<Rightarrow> t
      | Some h \<Rightarrow>
          t\<lparr>resource_to_handle := (resource_to_handle t)(resource := None),
            handle_to_resource := (handle_to_resource t)(h := None)\<rparr>)"

text \<open>What happens to a tracker: a resource is registered, or the tracker is notified
  that a resource was destroyed and removes it.\<close>

datatype 'r tracker_event = Added 'r | Destroyed 'r

fun tracker_step :: "'r tracker \<Rightarrow> 'r tracker_event \<Rightarrow> 'r tracker" where
  "tracker_step t (Added r) = snd (Add r t)"
| "tracker_step t (Destroyed r) = Remove r t"

definition tracker_after :: "'r tracker_event list \<Rightarrow> 'r tracker" where
  "tracker_after evs = foldl tracker_step new_tracker evs"

section \<open>Messages, notifications and the provider's state\<close>

datatype AutomationMsg_NavigationResponseValues =
    AUTOMATION_MSG_NAVIGATION_ERROR
  | AUTOMATION_MSG_NAVIGATION_SUCCESS
  | AUTOMATION_MSG_NAVIGATION_AUTH_NEEDED

datatype reply_param =
    NavigationResponse AutomationMsg_NavigationResponseValues
  | BoolParam bool
  | IntParam cint

text \<open>An \<open>IPC::Message\<close> that answers a delayed-reply command: the request it answers
  and the reply parameters written into it so far. A nullable \<open>IPC::Message*\<close> is a
  \<open>Message option\<close>.\<close>

record Message =
  request :: nat
  params :: "reply_param list"

definition WriteReplyParams :: "Message \<Rightarrow> reply_param list \<Rightarrow> Message" where
  "WriteReplyParams m ps = m\<lparr>params := params m @ ps\<rparr>"

text \<open>
  Modelled from the spec: the macros \<open>DCHECK\<close>, \<open>DCHECK_LT\<close>, \<open>NOTREACHED\<close>, \<open>DLOG\<close> and
  \<open>NOTIMPLEMENTED\<close> (base/logging.h) are not among the sources. The spec (sections 4.5
  and 7) has a failed assertion end the process and has \<open>DLOG\<close> write a log entry; so a
  failed assertion, like a call through a null pointer, ends a run with a \<open>fatal\<close> value,
  and the log is a list of entries.
\<close>

datatype fatal = DCHECK_failed | NOTREACHED_hit | NULL_dereference

datatype log_severity = LOG_INFO | LOG_WARNING | LOG_ERROR

definition then_do :: "fatal + 'a \<Rightarrow> ('a \<Rightarrow> fatal + 'b) \<Rightarrow> fatal + 'b" where
  "then_do r k = (case r of Inl e \<Rightarrow> Inl e | Inr x \<Rightarrow> k x)"

datatype NotificationType =
    NAV_ENTRY_COMMITTED | LOAD_START | LOAD_STOP | AUTH_NEEDED | AUTH_SUPPLIED
  | TAB_PARENTED | TAB_CLOSING | TAB_CLOSED | BROWSER_OPENED | BROWSER_CLOSED
  | FIND_RESULT_AVAILABLE | APP_MODAL_DIALOG_SHOWN

record FindNotificationDetails =
  request_id :: cint
  number_of_matches :: cint
  active_match_ordinal :: cint
  final_update :: bool

datatype NotificationDetails =
    NoDetails
  | LoginNotificationDetails LoginHandler
  | FindDetails FindNotificationDetails
  | CloseAppDetails bool

type_synonym notification = "NotificationType \<times> source \<times> NotificationDetails"

text \<open>A \<open>NotificationRegistrar\<close> entry: the notification type and the source it is
  restricted to (\<open>None\<close> is \<open>NotificationService::AllSources()\<close>).\<close>

type_synonym registration = "NotificationType \<times> source option"

record observer_fields =
  registrar :: "registration list"
  reply_message :: "Message option"

record NavigationNotificationObserver = observer_fields +
  controller :: NavigationController
  navigations_remaining :: cint
  navigation_started :: bool

record TabClosedNotificationObserver = observer_fields +
  notification :: NotificationType
  for_browser_command :: bool

record BrowserCountChangeNotificationObserver = observer_fields +
  target_count :: cint

record FindInPageNotificationObserver = observer_fields +
  active_match_ordinal_member :: cint

datatype observer =
    Navigation NavigationNotificationObserver
  | TabClosed TabClosedNotificationObserver
  | BrowserCountChange BrowserCountChangeNotificationObserver
  | FindInPage FindInPageNotificationObserver

text \<open>Calls into the browser object service, which is outside the provider: they are
  recorded in the order they are made.\<close>

datatype browser_call =
    SelectTabContentsAt Browser cint
  | OpenURL Browser string
  | CloseContents Browser NavigationController

text \<open>
  The state the provider and its observers work on. \<open>channel\<close> is what has been handed
  to \<open>channel_->Send\<close>, oldest first, and \<open>None\<close> while no channel is connected. \<open>heap\<close>
  holds the observers made with \<open>new\<close>: an address is an index, and \<open>delete\<close> leaves
  \<open>None\<close> at it. \<open>GetBrowserForController\<close> and \<open>BrowserList_size\<close> are what
  \<open>Browser::GetBrowserForController\<close> and \<open>static_cast<int>(BrowserList::size())\<close>
  return at the moment; \<open>OS_WIN\<close> is the platform the file is compiled for.
\<close>

record World =
  channel :: "Message list option"
  heap :: "observer option list"
  notification_observer_list :: "addr list"
  login_handler_map :: "NavigationController \<rightharpoonup> LoginHandler"
  tab_tracker :: "NavigationController tracker"
  GetBrowserForController :: "NavigationController \<rightharpoonup> Browser \<times> cint"
  BrowserList_size :: cint
  browser_calls :: "browser_call list"
  dlog :: "(log_severity \<times> string) list"
  OS_WIN :: bool

definition heap_at :: "World \<Rightarrow> addr \<Rightarrow> observer option" where
  "heap_at w a = (if a < length (heap w) then heap w ! a else None)"

definition new_observer :: "observer \<Rightarrow> World \<Rightarrow> addr \<times> World" where
  "new_observer ob w = (length (heap w), w\<lparr>heap := heap w @ [Some ob]\<rparr>)"

definition store :: "addr \<Rightarrow> observer \<Rightarrow> World \<Rightarrow> World" where
  "store a ob w = w\<lparr>heap := (heap w)[a := Some ob]\<rparr>"

definition free :: "addr \<Rightarrow> World \<Rightarrow> World" where
  "free a w = w\<lparr>heap := (heap w)[a := None]\<rparr>"

definition DLOG :: "log_severity \<Rightarrow> string \<Rightarrow> World \<Rightarrow> World" where
  "DLOG sev text w = w\<lparr>dlog := dlog w @ [(sev, text)]\<rparr>"

definition browser_call :: "browser_call \<Rightarrow> World \<Rightarrow> World" where
  "browser_call c w = w\<lparr>browser_calls := browser_calls w @ [c]\<rparr>"

subsection \<open>AutomationProvider: Send and the observer list\<close>

text \<open>\<open>AutomationProvider::Send\<close>: \<open>DCHECK(channel_.get()); return channel_->Send(msg);\<close>\<close>

definition Send :: "Message \<Rightarrow> World \<Rightarrow> fatal + World" where
  "Send msg w =
     (case channel w of
        None \<Rightarrow> Inl DCHECK_failed
      | Some sent \<Rightarrow> Inr (w\<lparr>channel := Some (sent @ [msg])\<rparr>))"

definition RemoveNavigationStatusListener :: "addr \<Rightarrow> World \<Rightarrow> World" where
  "RemoveNavigationStatusListener obs w =
     w\<lparr>notification_observer_list := remove1 obs (notification_observer_list w)\<rparr>"

definition AddLoginHandler :: "NavigationController \<Rightarrow> LoginHandler \<Rightarrow> World \<Rightarrow> World" where
  "AddLoginHandler tab handler w = w\<lparr>login_handler_map := (login_handler_map w)(tab \<mapsto> handler)\<rparr>"

text \<open>\<open>DCHECK(login_handler_map_[tab]); login_handler_map_.erase(tab);\<close>\<close>

definition RemoveLoginHandler :: "NavigationController \<Rightarrow> World \<Rightarrow> fatal + World" where
  "RemoveLoginHandler tab w =
     (case login_handler_map w tab of
        None \<Rightarrow> Inl DCHECK_failed
      | Some handler \<Rightarrow> Inr (w\<lparr>login_handler_map := (login_handler_map w)(tab := None)\<rparr>))"

subsection \<open>NavigationNotificationObserver\<close>

text \<open>The constructor: \<open>DCHECK_LT(0, navigations_remaining_)\<close>, then five registrations
  for the controller as source.\<close>

definition NavigationNotificationObserver_ctor ::
  "NavigationController \<Rightarrow> Message option \<Rightarrow> cint \<Rightarrow> fatal + NavigationNotificationObserver" where
  "NavigationNotificationObserver_ctor tab reply number_of_navigations =
     (if \<not> 0 <s number_of_navigations then Inl DCHECK_failed
      else Inr \<lparr>registrar = [(NAV_ENTRY_COMMITTED, Some tab), (LOAD_START, Some tab),
                              (LOAD_STOP, Some tab), (AUTH_NEEDED, Some tab),
                              (AUTH_SUPPLIED, Some tab)],
                 reply_message = reply,
                 controller = tab,
                 navigations_remaining = number_of_navigations,
                 navigation_started = False\<rparr>)"

text \<open>The destructor, run on the object \<open>ob\<close> at address \<open>this\<close>: a reply that is still
  held is answered with the error status and sent; then the observer leaves the
  provider's list.\<close>

definition NavigationNotificationObserver_dtor ::
  "addr \<Rightarrow> NavigationNotificationObserver \<Rightarrow> World \<Rightarrow> fatal + World" where
  "NavigationNotificationObserver_dtor this ob w =
     then_do
       (case reply_message ob of
          Some m \<Rightarrow>
            Send (WriteReplyParams m [NavigationResponse AUTOMATION_MSG_NAVIGATION_ERROR]) w
        | None \<Rightarrow> Inr w)
       (\<lambda>w1. Inr (RemoveNavigationStatusListener this w1))"

text \<open>\<open>delete\<close> on a navigation observer: the destructor, then the storage is freed
  (with it the registrar and its registrations).\<close>

definition delete_NavigationNotificationObserver ::
  "addr \<Rightarrow> NavigationNotificationObserver \<Rightarrow> World \<Rightarrow> fatal + World" where
  "delete_NavigationNotificationObserver this ob w =
     then_do (NavigationNotificationObserver_dtor this ob w) (\<lambda>w1. Inr (free this w1))"

definition ConditionMet ::
  "addr \<Rightarrow> NavigationNotificationObserver \<Rightarrow> AutomationMsg_NavigationResponseValues \<Rightarrow>
   World \<Rightarrow> fatal + World" where
  "ConditionMet this ob navigation_result w =
     (case reply_message ob of
        None \<Rightarrow> Inl DCHECK_failed
      | Some m \<Rightarrow>
          then_do (Send (WriteReplyParams m [NavigationResponse navigation_result]) w)
            (\<lambda>w1. delete_NavigationNotificationObserver this (ob\<lparr>reply_message := None\<rparr>) w1))"

definition NavigationNotificationObserver_Observe ::
  "addr \<Rightarrow> NavigationNotificationObserver \<Rightarrow> NotificationType \<Rightarrow> NotificationDetails \<Rightarrow>
   World \<Rightarrow> fatal + World" where
  "NavigationNotificationObserver_Observe this ob ty details w =
     (if ty = NAV_ENTRY_COMMITTED \<or> ty = LOAD_START then
        Inr (store this (Navigation (ob\<lparr>navigation_started := True\<rparr>)) w)
      else if ty = LOAD_STOP then
        (if navigation_started ob then
           (let ob1 = ob\<lparr>navigation_started := False,
                         navigations_remaining := navigations_remaining ob - 1\<rparr>
            in if navigations_remaining ob1 = 0
               then ConditionMet this ob1 AUTOMATION_MSG_NAVIGATION_SUCCESS w
               else Inr (store this (Navigation ob1) w))
         else Inr w)
      else if ty = AUTH_SUPPLIED then
        then_do (RemoveLoginHandler (controller ob) w)
          (\<lambda>w1. Inr (store this (Navigation (ob\<lparr>navigation_started := True\<rparr>)) w1))
      else if ty = AUTH_NEEDED then
        (if OS_WIN w then
           (if navigation_started ob then
              (case details of
                 LoginNotificationDetails handler \<Rightarrow>
                   ConditionMet this (ob\<lparr>navigation_started := False\<rparr>)
                     AUTOMATION_MSG_NAVIGATION_AUTH_NEEDED
                     (AddLoginHandler (controller ob) handler w)
               | _ \<Rightarrow> Inl NULL_dereference)
            else Inl NOTREACHED_hit)
         else Inr (DLOG LOG_ERROR ''NOTIMPLEMENTED'' w))
      else Inl NOTREACHED_hit)"

text \<open>\<open>AutomationProvider::AddNavigationStatusListener\<close>: a new observer, appended to
  the provider's observer list.\<close>

definition AddNavigationStatusListener ::
  "NavigationController \<Rightarrow> Message option \<Rightarrow> cint \<Rightarrow> World \<Rightarrow> fatal + addr \<times> World" where
  "AddNavigationStatusListener tab reply number_of_navigations w =
     then_do (NavigationNotificationObserver_ctor tab reply number_of_navigations)
       (\<lambda>ob. case new_observer (Navigation ob) w of
                (observer, w1) \<Rightarrow>
                  Inr (observer,
                       w1\<lparr>notification_observer_list :=
                            notification_observer_list w1 @ [observer]\<rparr>))"

subsection \<open>TabClosedNotificationObserver\<close>

definition TabClosedNotificationObserver_ctor ::
  "bool \<Rightarrow> Message option \<Rightarrow> TabClosedNotificationObserver" where
  "TabClosedNotificationObserver_ctor wait_until_closed reply =
     (let n = (if wait_until_closed then TAB_CLOSED else TAB_CLOSING)
      in \<lparr>registrar = [(n, None)], reply_message = reply,
          notification = n, for_browser_command = False\<rparr>)"

text \<open>\<open>ObserveTab\<close> writes \<open>true\<close> into the reply (as a WindowExecuteCommand or a
  CloseTab reply) and sends it.\<close>

definition TabClosedNotificationObserver_ObserveTab ::
  "TabClosedNotificationObserver \<Rightarrow> World \<Rightarrow> fatal + World" where
  "TabClosedNotificationObserver_ObserveTab ob w =
     (case reply_message ob of
        None \<Rightarrow> Inl NULL_dereference
      | Some m \<Rightarrow> Send (WriteReplyParams m [BoolParam True]) w)"

definition RemoveTabStripObserver :: "addr \<Rightarrow> World \<Rightarrow> World" where
  "RemoveTabStripObserver obs w =
     w\<lparr>notification_observer_list := remove1 obs (notification_observer_list w)\<rparr>"

text \<open>\<open>TabStripNotificationObserver::Observe\<close>, for the tab-closed observer.\<close>

definition TabClosedNotificationObserver_Observe ::
  "addr \<Rightarrow> TabClosedNotificationObserver \<Rightarrow> NotificationType \<Rightarrow> World \<Rightarrow> fatal + World" where
  "TabClosedNotificationObserver_Observe this ob ty w =
     (if ty = notification ob then
        then_do (TabClosedNotificationObserver_ObserveTab ob w)
          (\<lambda>w1. Inr (free this (RemoveTabStripObserver this w1)))
      else Inl NOTREACHED_hit)"

subsection \<open>BrowserCountChangeNotificationObserver\<close>

definition BrowserCountChangeNotificationObserver_ctor ::
  "cint \<Rightarrow> Message option \<Rightarrow> BrowserCountChangeNotificationObserver" where
  "BrowserCountChangeNotificationObserver_ctor target reply =
     \<lparr>registrar = [(BROWSER_OPENED, None), (BROWSER_CLOSED, None)],
      reply_message = reply, target_count = target\<rparr>"

text \<open>The count the observer compares with its target: the size of the browser list,
  less one at a close notification, where the closing browser is still in the list.\<close>

definition adjusted_count :: "NotificationType \<Rightarrow> cint \<Rightarrow> cint" where
  "adjusted_count ty current_count =
     (if ty = BROWSER_CLOSED then current_count - 1 else current_count)"

definition BrowserCountChangeNotificationObserver_Observe ::
  "addr \<Rightarrow> BrowserCountChangeNotificationObserver \<Rightarrow> NotificationType \<Rightarrow> World \<Rightarrow>
   fatal + World" where
  "BrowserCountChangeNotificationObserver_Observe this ob ty w =
     (if \<not> (ty = BROWSER_OPENED \<or> ty = BROWSER_CLOSED) then Inl DCHECK_failed
      else
        (let current_count = BrowserList_size w
         in if ty = BROWSER_CLOSED \<and> \<not> 0 <s current_count then Inl DCHECK_failed
            else if adjusted_count ty current_count = target_count ob then
              (case reply_message ob of
                 None \<Rightarrow> Inl NULL_dereference
               | Some m \<Rightarrow>
                   then_do (Send (WriteReplyParams m [BoolParam True]) w)
                     (\<lambda>w1. Inr (free this w1)))
            else Inr w))"

subsection \<open>FindInPageNotificationObserver\<close>

definition kFindInPageRequestId :: cint where
  "kFindInPageRequestId = - 1"

definition FindInPageNotificationObserver_ctor ::
  "source \<Rightarrow> Message option \<Rightarrow> FindInPageNotificationObserver" where
  "FindInPageNotificationObserver_ctor parent_tab reply =
     \<lparr>registrar = [(FIND_RESULT_AVAILABLE, Some parent_tab)],
      reply_message = reply, active_match_ordinal_member = - 1\<rparr>"

definition FindInPageNotificationObserver_Observe ::
  "addr \<Rightarrow> FindInPageNotificationObserver \<Rightarrow> NotificationType \<Rightarrow> NotificationDetails \<Rightarrow>
   World \<Rightarrow> fatal + World" where
  "FindInPageNotificationObserver_Observe this ob ty details w =
     (if ty = FIND_RESULT_AVAILABLE then
        (case details of
           FindDetails find_details \<Rightarrow>
             (if request_id find_details = kFindInPageRequestId then
                (let ob1 = (if - 1 <s active_match_ordinal find_details
                            then ob\<lparr>active_match_ordinal_member :=
                                      active_match_ordinal find_details\<rparr>
                            else ob)
                 in if final_update find_details then
                      (case reply_message ob1 of
                         Some m \<Rightarrow>
                           then_do
                             (Send (WriteReplyParams m
                                      [IntParam (active_match_ordinal_member ob1),
                                       IntParam (number_of_matches find_details)]) w)
                             (\<lambda>w1. Inr (store this
                                           (FindInPage (ob1\<lparr>reply_message := None\<rparr>)) w1))
                       | None \<Rightarrow>
                           Inr (DLOG LOG_WARNING ''Multiple final Find messages observed.''
                                  (store this (FindInPage ob1) w)))
                    else
                      Inr (DLOG LOG_INFO
                             ''Ignoring, since we only care about the final message''
                             (store this (FindInPage ob1) w)))
              else Inr w)
         | _ \<Rightarrow> Inl NULL_dereference)
      else Inl NOTREACHED_hit)"

subsection \<open>Delivery of notifications\<close>

fun registrar_of :: "observer \<Rightarrow> registration list" where
  "registrar_of (Navigation ob) = registrar ob"
| "registrar_of (TabClosed ob) = registrar ob"
| "registrar_of (BrowserCountChange ob) = registrar ob"
| "registrar_of (FindInPage ob) = registrar ob"

fun Observe :: "addr \<Rightarrow> observer \<Rightarrow> notification \<Rightarrow> World \<Rightarrow> fatal + World" where
  "Observe this (Navigation ob) (ty, src, details) w =
     NavigationNotificationObserver_Observe this ob ty details w"
| "Observe this (TabClosed ob) (ty, src, details) w =
     TabClosedNotificationObserver_Observe this ob ty w"
| "Observe this (BrowserCountChange ob) (ty, src, details) w =
     BrowserCountChangeNotificationObserver_Observe this ob ty w"
| "Observe this (FindInPage ob) (ty, src, details) w =
     FindInPageNotificationObserver_Observe this ob ty details w"

text \<open>
  Modelled from the spec: NotificationService and NotificationRegistrar
  (chrome/common/notification\_service.h, notification\_registrar.h) are not among the
  sources. By the spec, section 4.2, a published notification reaches an observer when
  the observer is subscribed to its kind and its source passes the subscription's
  filter; an observer that was deleted has no subscriptions left and receives nothing.
\<close>

definition registered :: "observer \<Rightarrow> NotificationType \<Rightarrow> source \<Rightarrow> bool" where
  "registered ob ty src =
     list_ex (\<lambda>(t, filter). t = ty \<and> (filter = None \<or> filter = Some src)) (registrar_of ob)"

definition Notify :: "addr \<Rightarrow> notification \<Rightarrow> World \<Rightarrow> fatal + World" where
  "Notify a n w =
     (case heap_at w a of
        None \<Rightarrow> Inr w
      | Some ob \<Rightarrow> if registered ob (fst n) (fst (snd n)) then Observe a ob n w else Inr w)"

fun notify_all :: "addr \<Rightarrow> notification list \<Rightarrow> World \<Rightarrow> fatal + World" where
  "notify_all a [] w = Inr w"
| "notify_all a (n # ns) w = then_do (Notify a n w) (notify_all a ns)"

text \<open>A browser-opened or browser-closed notification, published when the browser
  list has the given size.\<close>

definition browser_list_notification ::
  "addr \<Rightarrow> NotificationType \<times> cint \<Rightarrow> World \<Rightarrow> fatal + World" where
  "browser_list_notification a e w =
     Notify a (fst e, 0, NoDetails) (w\<lparr>BrowserList_size := snd e\<rparr>)"

fun browser_list_notifications ::
  "addr \<Rightarrow> (NotificationType \<times> cint) list \<Rightarrow> World \<Rightarrow> fatal + World" where
  "browser_list_notifications a [] w = Inr w"
| "browser_list_notifications a (e # es) w =
     then_do (browser_list_notification a e w) (browser_list_notifications a es)"

subsection \<open>Commands of the provider\<close>

definition FindAndActivateTab :: "NavigationController \<Rightarrow> World \<Rightarrow> Browser option \<times> World" where
  "FindAndActivateTab tab w =
     (case GetBrowserForController w tab of
        None \<Rightarrow> (None, w)
      | Some (browser, tab_index) \<Rightarrow>
          (Some browser, browser_call (SelectTabContentsAt browser tab_index) w))"

definition NavigateToURLBlockUntilNavigationsComplete ::
  "handle \<Rightarrow> string \<Rightarrow> cint \<Rightarrow> Message \<Rightarrow> World \<Rightarrow> fatal + World" where
  "NavigateToURLBlockUntilNavigationsComplete h url number_of_navigations reply w =
     (let error_reply =
            Send (WriteReplyParams reply [NavigationResponse AUTOMATION_MSG_NAVIGATION_ERROR]) w
      in if ContainsHandle (tab_tracker w) h then
           (case GetResource (tab_tracker w) h of
              None \<Rightarrow> Inl NULL_dereference
            | Some tab \<Rightarrow>
                (case FindAndActivateTab tab w of
                   (Some browser, w1) \<Rightarrow>
                     then_do (AddNavigationStatusListener tab (Some reply) number_of_navigations w1)
                       (\<lambda>(observer, w2). Inr (browser_call (OpenURL browser url) w2))
                 | (None, w1) \<Rightarrow> error_reply))
         else error_reply)"

definition NavigateToURL :: "handle \<Rightarrow> string \<Rightarrow> Message \<Rightarrow> World \<Rightarrow> fatal + World" where
  "NavigateToURL h url reply w = NavigateToURLBlockUntilNavigationsComplete h url 1 reply w"

text \<open>\<open>AutomationProvider::CloseTab\<close>. With a handle the tab tracker does not contain,
  the function writes \<open>false\<close> into the reply message and returns: the message is not
  passed to \<open>Send\<close>, so nothing of it reaches the state.\<close>

definition CloseTab :: "handle \<Rightarrow> bool \<Rightarrow> Message \<Rightarrow> World \<Rightarrow> fatal + World" where
  "CloseTab tab_handle wait_until_closed reply w =
     (if ContainsHandle (tab_tracker w) tab_handle then
        (case GetResource (tab_tracker w) tab_handle of
           None \<Rightarrow> Inl NULL_dereference
         | Some tab \<Rightarrow>
             (case GetBrowserForController w tab of
                None \<Rightarrow> Inl DCHECK_failed
              | Some (browser, index) \<Rightarrow>
                  (case new_observer
                          (TabClosed (TabClosedNotificationObserver_ctor wait_until_closed
                                        (Some reply))) w of
                     (observer, w1) \<Rightarrow> Inr (browser_call (CloseContents browser tab) w1))))
      else
        (let written = WriteReplyParams reply [BoolParam False] in Inr w))"

definition WaitForBrowserWindowCountToBecome :: "cint \<Rightarrow> Message \<Rightarrow> World \<Rightarrow> fatal + World" where
  "WaitForBrowserWindowCountToBecome target reply w =
     (if BrowserList_size w = target then
        Send (WriteReplyParams reply [BoolParam True]) w
      else
        Inr (snd (new_observer
                    (BrowserCountChange
                       (BrowserCountChangeNotificationObserver_ctor target (Some reply))) w)))"

subsection \<open>SetProxyConfigTask\<close>

text \<open>
  Modelled from the spec: the JSON value classes (base/values.h) are not among the
  sources. A value is null, a boolean, an integer, a real number, a string, binary
  data, a dictionary or a list; \<open>GetBoolean\<close> and \<open>GetString\<close> of a dictionary succeed
  when the key is present with a value of that type. Real numbers and binary data
  carry no content here: nothing below reads them.
\<close>

datatype Value =
    NullValue
  | BooleanValue bool
  | IntegerValue cint
  | RealValue
  | StringValue string
  | BinaryValue
  | DictionaryValue "(string \<times> Value) list"
  | ListValue "Value list"

definition GetBoolean :: "(string \<times> Value) list \<Rightarrow> string \<Rightarrow> bool option" where
  "GetBoolean dict key =
     (case map_of dict key of Some (BooleanValue b) \<Rightarrow> Some b | _ \<Rightarrow> None)"

definition GetString :: "(string \<times> Value) list \<Rightarrow> string \<Rightarrow> string option" where
  "GetString dict key =
     (case map_of dict key of Some (StringValue s) \<Rightarrow> Some s | _ \<Rightarrow> None)"

text \<open>
  Modelled from the spec: \<open>net::ProxyConfig\<close> (net/proxy/proxy\_config.h) is not among
  the sources; the spec, section 6, names what a configuration holds: auto-detect, the
  PAC URL, the bypass list and the proxy server rules. The rules are of a type \<open>'r\<close>
  that only \<open>ParseFromString\<close> knows.
\<close>

datatype GURL = GURL string

record 'r ProxyConfig =
  auto_detect :: bool
  pac_url :: GURL
  proxy_bypass :: "string list"
  proxy_rules :: 'r

text \<open>What the task uses and the sources do not contain, as parameters: the JSON
  deserializer (the root value, if any, and the error message), the two parsers of
  \<open>net::ProxyConfig\<close>, the default-constructed configuration, and the key names of
  automation\_constants.h.\<close>

record 'r proxy_library =
  Deserialize :: "string \<Rightarrow> Value option \<times> string"
  ParseNoProxyList :: "string \<Rightarrow> 'r ProxyConfig \<Rightarrow> 'r ProxyConfig"
  ParseFromString :: "string \<Rightarrow> 'r \<Rightarrow> 'r"
  new_ProxyConfig :: "'r ProxyConfig"
  kJSONProxyNoProxy :: string
  kJSONProxyAutoconfig :: string
  kJSONProxyPacUrl :: string
  kJSONProxyBypassList :: string
  kJSONProxyServer :: string

text \<open>The state the task works on: the configuration that the proxy service's
  configuration service serves (\<open>None\<close> when the task was given no proxy service), and
  the log.\<close>

record 'r io_thread =
  proxy_service :: "'r ProxyConfig option"
  io_log :: "(log_severity \<times> string) list"

definition PopulateProxyConfig ::
  "'r proxy_library \<Rightarrow> (string \<times> Value) list \<Rightarrow> 'r ProxyConfig \<Rightarrow> 'r ProxyConfig" where
  "PopulateProxyConfig lib dict pc =
     (case GetBoolean dict (kJSONProxyNoProxy lib) of
        Some no_proxy \<Rightarrow> pc
      | None \<Rightarrow>
          (let pc1 = (case GetBoolean dict (kJSONProxyAutoconfig lib) of
                        Some auto_config \<Rightarrow> pc\<lparr>auto_detect := True\<rparr>
                      | None \<Rightarrow> pc);
               pc2 = (case GetString dict (kJSONProxyPacUrl lib) of
                        Some url \<Rightarrow> pc1\<lparr>pac_url := GURL url\<rparr>
                      | None \<Rightarrow> pc1);
               pc3 = (case GetString dict (kJSONProxyBypassList lib) of
                        Some proxy_bypass_list \<Rightarrow> ParseNoProxyList lib proxy_bypass_list pc2
                      | None \<Rightarrow> pc2)
           in (case GetString dict (kJSONProxyServer lib) of
                 Some proxy_server \<Rightarrow>
                   pc3\<lparr>proxy_rules := ParseFromString lib proxy_server (proxy_rules pc3)\<rparr>
               | None \<Rightarrow> pc3)))"

definition bad_JSON :: "string \<Rightarrow> 'r io_thread \<Rightarrow> 'r io_thread" where
  "bad_JSON error_message s =
     s\<lparr>io_log := io_log s @
          [(LOG_WARNING, ''Received bad JSON string for ProxyConfig: '' @ error_message)]\<rparr>"

text \<open>\<open>SetProxyConfigTask::Run\<close>. The test \<open>!root.get() || root->GetType() !=
  Value::TYPE_DICTIONARY\<close> is the case distinction on the deserialized root: no value,
  or a value that is not a dictionary.\<close>

definition SetProxyConfigTask_Run ::
  "'r proxy_library \<Rightarrow> string \<Rightarrow> 'r io_thread \<Rightarrow> fatal + 'r io_thread" where
  "SetProxyConfigTask_Run lib proxy_config s =
     (case Deserialize lib proxy_config of
        (None, error_message) \<Rightarrow> Inr (bad_JSON error_message s)
      | (Some root, error_message) \<Rightarrow>
          (case root of
             DictionaryValue dict \<Rightarrow>
               (let pc = PopulateProxyConfig lib dict (new_ProxyConfig lib)
                in case proxy_service s of
                     None \<Rightarrow> Inl DCHECK_failed
                   | Some old \<Rightarrow> Inr (s\<lparr>proxy_service := Some pc\<rparr>))
           | _ \<Rightarrow> Inr (bad_JSON error_message s)))"

section \<open>Notions and scenarios used in the statements\<close>

definition tracker_inv :: "'r tracker \<Rightarrow> bool" where
  "tracker_inv t =
     ((\<forall>h r. (handle_to_resource t h = Some r) = (resource_to_handle t r = Some h)) \<and>
      (\<forall>h r. handle_to_resource t h = Some r \<longrightarrow> h \<le> last_handle t))"

definition issued :: "'r tracker_event list \<Rightarrow> handle \<Rightarrow> 'r \<Rightarrow> bool" where
  "issued evs h r =
     (\<exists>pre post. evs = pre @ Added r # post \<and> fst (Add r (tracker_after pre)) = h \<and>
        Destroyed r \<notin> set post)"

text \<open>A provider with a connected channel on which nothing was sent yet, no observers
  and empty trackers; the closed examples below start from it.\<close>

definition connected_world :: World where
  "connected_world =
     \<lparr>channel = Some [], heap = [], notification_observer_list = [],
      login_handler_map = Map.empty, tab_tracker = new_tracker,
      GetBrowserForController = Map.empty, BrowserList_size = 1,
      browser_calls = [], dlog = [], OS_WIN = True\<rparr>"

text \<open>\<open>n\<close> pairs of a load-start and a load-stop notification from the controller
  \<open>tab\<close>, and a navigation observer for \<open>tab\<close> that still holds its reply \<open>m\<close>.\<close>

definition load_pairs :: "NavigationController \<Rightarrow> nat \<Rightarrow> notification list" where
  "load_pairs tab n =
     concat (replicate n [(LOAD_START, tab, NoDetails), (LOAD_STOP, tab, NoDetails)])"

definition waiting_observer ::
  "NavigationController \<Rightarrow> Message \<Rightarrow> cint \<Rightarrow> bool \<Rightarrow> NavigationNotificationObserver" where
  "waiting_observer tab m r s =
     \<lparr>registrar = [(NAV_ENTRY_COMMITTED, Some tab), (LOAD_START, Some tab),
                   (LOAD_STOP, Some tab), (AUTH_NEEDED, Some tab),
                   (AUTH_SUPPLIED, Some tab)],
      reply_message = Some m, controller = tab,
      navigations_remaining = r, navigation_started = s\<rparr>"

text \<open>A provider in which one navigation observer, for two navigations of controller
  5, waits at address 0.\<close>

definition navigating_world :: World where
  "navigating_world =
     connected_world
       \<lparr>heap := [Some (Navigation (waiting_observer 5 \<lparr>request = 1, params = []\<rparr> 2 False))],
        notification_observer_list := [0]\<rparr>"

text \<open>A browser-list notification the observer can receive: browser-opened, or
  browser-closed while the list is not empty (the closing browser is still in it, as
  the observer asserts). It reaches the target when the adjusted count is the target.\<close>

definition browser_list_event_ok :: "NotificationType \<times> cint \<Rightarrow> bool" where
  "browser_list_event_ok e =
     (fst e = BROWSER_OPENED \<or> (fst e = BROWSER_CLOSED \<and> 0 <s snd e))"

definition reaches_target :: "cint \<Rightarrow> NotificationType \<times> cint \<Rightarrow> bool" where
  "reaches_target target e = (adjusted_count (fst e) (snd e) = target)"

text \<open>A provider in which a browser-count observer with target 2 waits at address 0.\<close>

definition counting_world :: World where
  "counting_world =
     connected_world
       \<lparr>heap := [Some (BrowserCountChange
                   (BrowserCountChangeNotificationObserver_ctor 2
                      (Some \<lparr>request = 4, params = []\<rparr>)))]\<rparr>"

text \<open>A find result published by the tab \<open>tab\<close>; a find observer for that tab; partial
  and final results of the request the observer follows; the ordinal the observer
  keeps after a result.\<close>

definition find_notification :: "source \<Rightarrow> FindNotificationDetails \<Rightarrow> notification" where
  "find_notification tab d = (FIND_RESULT_AVAILABLE, tab, FindDetails d)"

definition find_observer ::
  "source \<Rightarrow> Message option \<Rightarrow> cint \<Rightarrow> FindInPageNotificationObserver" where
  "find_observer tab r ordinal =
     \<lparr>registrar = [(FIND_RESULT_AVAILABLE, Some tab)], reply_message = r,
      active_match_ordinal_member = ordinal\<rparr>"

definition partial_update :: "FindNotificationDetails \<Rightarrow> bool" where
  "partial_update d = (request_id d = kFindInPageRequestId \<and> \<not> final_update d)"

definition final_result :: "FindNotificationDetails \<Rightarrow> bool" where
  "final_result d = (request_id d = kFindInPageRequestId \<and> final_update d)"

definition seen_ordinal :: "cint \<Rightarrow> FindNotificationDetails \<Rightarrow> cint" where
  "seen_ordinal acc d = (if - 1 <s active_match_ordinal d then active_match_ordinal d else acc)"

text \<open>The last ordinal greater than \<open>-1\<close> among the results, and \<open>-1\<close> when there is
  none.\<close>

definition last_ordinal :: "FindNotificationDetails list \<Rightarrow> cint" where
  "last_ordinal ds =
     (case filter (\<lambda>ordinal. - 1 <s ordinal) (map active_match_ordinal ds) of
        [] \<Rightarrow> - 1
      | ordinals \<Rightarrow> last ordinals)"

text \<open>A provider in which a find observer for tab 9 waits at address 0, and a find
  result of the observer's request.\<close>

definition finding_world :: World where
  "finding_world =
     connected_world
       \<lparr>heap := [Some (FindInPage
                   (FindInPageNotificationObserver_ctor 9 (Some \<lparr>request = 6, params = []\<rparr>)))]\<rparr>"

definition find_result :: "cint \<Rightarrow> cint \<Rightarrow> bool \<Rightarrow> FindNotificationDetails" where
  "find_result ordinal matches final =
     \<lparr>request_id = kFindInPageRequestId, number_of_matches = matches,
      active_match_ordinal = ordinal, final_update = final\<rparr>"

text \<open>The last ordinal observed among the results, ignoring ordinals that are \<open>-1\<close>
  (and \<open>-1\<close> when every ordinal is). A result carries the ordinal of the active match,
  or \<open>-1\<close> when it has none: \<open>-1\<close> is the only value below the ordinals that the
  provider itself uses (the observer's initial ordinal, the error reply of
  \<open>HandleFindRequest\<close>).\<close>

definition last_seen_ordinal :: "FindNotificationDetails list \<Rightarrow> cint" where
  "last_seen_ordinal ds =
     (case filter (\<lambda>ordinal. ordinal \<noteq> - 1) (map active_match_ordinal ds) of
        [] \<Rightarrow> - 1
      | ordinals \<Rightarrow> last ordinals)"

definition ordinal_or_none :: "FindNotificationDetails \<Rightarrow> bool" where
  "ordinal_or_none d = (- 1 \<le>s active_match_ordinal d)"

text \<open>
  Modelled from the spec: a stand-in for what the sources do not contain, used in the
  closed examples. The key names are those of the spec's documents (\<open>no_proxy\<close>,
  \<open>pac_url\<close>, and the other recognised fields of section 6); the deserializer is fixed
  on the documents of the examples and rejects every other text; a default-constructed
  configuration has auto-detect off, no PAC URL, no bypass list and no rules.
\<close>

definition no_proxy_document :: string where
  \<open>no_proxy_document = ''{"no_proxy": true}''\<close>

definition pac_url_document :: string where
  \<open>pac_url_document = ''{"pac_url": "http://proxy/wpad.dat"}''\<close>

definition list_document :: string where
  \<open>list_document = ''[1]''\<close>

definition example_library :: "string proxy_library" where
  "example_library =
     \<lparr>Deserialize = (\<lambda>text.
        if text = no_proxy_document
          then (Some (DictionaryValue [(''no_proxy'', BooleanValue True)]), [])
        else if text = pac_url_document
          then (Some (DictionaryValue [(''pac_url'', StringValue ''http://proxy/wpad.dat'')]), [])
        else if text = list_document
          then (Some (ListValue [IntegerValue 1]), [])
        else (None, ''Syntax error'')),
      ParseNoProxyList = (\<lambda>bypass pc. pc\<lparr>proxy_bypass := [bypass]\<rparr>),
      ParseFromString = (\<lambda>server rules. server),
      new_ProxyConfig = \<lparr>auto_detect = False, pac_url = GURL [], proxy_bypass = [],
                          proxy_rules = []\<rparr>,
      kJSONProxyNoProxy = ''no_proxy'',
      kJSONProxyAutoconfig = ''auto_detect'',
      kJSONProxyPacUrl = ''pac_url'',
      kJSONProxyBypassList = ''bypass_list'',
      kJSONProxyServer = ''proxy_server''\<rparr>"

text \<open>A proxy service that serves an auto-detect configuration with a PAC URL.\<close>

definition pac_configured :: "string io_thread" where
  "pac_configured =
     \<lparr>proxy_service = Some \<lparr>auto_detect = True, pac_url = GURL ''http://old/proxy.pac'',
                              proxy_bypass = [], proxy_rules = []\<rparr>,
      io_log = []\<rparr>"

section \<open>Properties\<close>

subsection \<open>Resource trackers\<close>

lemma tracker_inv_new: "tracker_inv new_tracker"
  by (simp add: tracker_inv_def new_tracker_def)

lemma tracker_inv_Add:
  assumes "tracker_inv t"
  shows "tracker_inv (snd (Add r t))"
proof (cases "resource_to_handle t r")
  case None
  have h2r: "handle_to_resource t h = Some r' \<Longrightarrow> resource_to_handle t r' = Some h" for h r'
    using assms unfolding tracker_inv_def by blast
  have r2h: "resource_to_handle t r' = Some h \<Longrightarrow> handle_to_resource t h = Some r'" for h r'
    using assms unfolding tracker_inv_def by blast
  have bound: "handle_to_resource t h = Some r' \<Longrightarrow> h \<le> last_handle t" for h r'
    using assms unfolding tracker_inv_def by blast
  have bound': "resource_to_handle t r' = Some h \<Longrightarrow> h \<le> last_handle t" for h r'
    using r2h bound by blast
  have fresh: "handle_to_resource t (last_handle t + 1) \<noteq> Some r'" for r'
    using bound [of "last_handle t + 1" r'] by auto
  have fresh': "resource_to_handle t r' \<noteq> Some (last_handle t + 1)" for r'
    using bound' [of r' "last_handle t + 1"] by auto
  have no_r: "handle_to_resource t h \<noteq> Some r" for h
    using h2r [of h r] None by auto
  show ?thesis
    unfolding tracker_inv_def
  proof (intro conjI allI impI)
    fix h r'
    show "(handle_to_resource (snd (Add r t)) h = Some r') =
          (resource_to_handle (snd (Add r t)) r' = Some h)"
      using None fresh [of r'] fresh' [of r'] no_r [of h] h2r [of h r'] r2h [of r' h]
      by (auto simp: Add_def Let_def)
  next
    fix h r'
    assume "handle_to_resource (snd (Add r t)) h = Some r'"
    then show "h \<le> last_handle (snd (Add r t))"
      using None bound [of h r'] by (auto simp: Add_def Let_def split: if_splits)
  qed
next
  case (Some h)
  with assms show ?thesis by (simp add: Add_def)
qed

lemma tracker_inv_Remove:
  assumes "tracker_inv t"
  shows "tracker_inv (Remove r t)"
proof (cases "resource_to_handle t r")
  case None
  with assms show ?thesis by (simp add: Remove_def)
next
  case (Some h0)
  have h2r: "handle_to_resource t h = Some r' \<Longrightarrow> resource_to_handle t r' = Some h" for h r'
    using assms unfolding tracker_inv_def by blast
  have r2h: "resource_to_handle t r' = Some h \<Longrightarrow> handle_to_resource t h = Some r'" for h r'
    using assms unfolding tracker_inv_def by blast
  have bound: "handle_to_resource t h = Some r' \<Longrightarrow> h \<le> last_handle t" for h r'
    using assms unfolding tracker_inv_def by blast
  show ?thesis
    unfolding tracker_inv_def
  proof (intro conjI allI impI)
    fix h r'
    show "(handle_to_resource (Remove r t) h = Some r') =
          (resource_to_handle (Remove r t) r' = Some h)"
      using Some h2r [of h r'] r2h [of r' h] r2h [of r h0] h2r [of h0 r']
      by (auto simp: Remove_def)
  next
    fix h r'
    assume "handle_to_resource (Remove r t) h = Some r'"
    then show "h \<le> last_handle (Remove r t)"
      using Some bound [of h r'] by (auto simp: Remove_def split: if_splits)
  qed
qed

lemma tracker_inv_step: "tracker_inv t \<Longrightarrow> tracker_inv (tracker_step t e)"
  by (cases e) (simp_all add: tracker_inv_Add tracker_inv_Remove)

lemma tracker_inv_after: "tracker_inv (tracker_after evs)"
  unfolding tracker_after_def
  by (induction evs rule: rev_induct) (simp_all add: tracker_inv_new tracker_inv_step)

lemma tracker_after_snoc: "tracker_after (evs @ [e]) = tracker_step (tracker_after evs) e"
  by (simp add: tracker_after_def)

lemma snoc_eq_append_Cons:
  "(xs @ [x] = pre @ y # post) =
   ((post = [] \<and> pre = xs \<and> y = x) \<or> (\<exists>post'. post = post' @ [x] \<and> xs = pre @ y # post'))"
  by (cases post rule: rev_cases) auto

lemma Add_untracked:
  assumes "resource_to_handle t r' = None" and "hn = last_handle t + 1"
  shows "fst (Add r' t) = hn"
    and "handle_to_resource (snd (Add r' t)) = (handle_to_resource t)(hn \<mapsto> r')"
  using assms by (simp_all add: Add_def Let_def)

lemma Add_tracked:
  assumes "resource_to_handle t r' = Some h'"
  shows "fst (Add r' t) = h'" and "snd (Add r' t) = t"
  using assms by (simp_all add: Add_def)

lemma handle_to_resource_Add:
  assumes "tracker_inv t"
  shows "(handle_to_resource (snd (Add r' t)) h = Some r) =
         (handle_to_resource t h = Some r \<or> (r = r' \<and> h = fst (Add r' t)))"
proof (cases "resource_to_handle t r'")
  case None
  define hn where "hn = last_handle t + 1"
  have "hn \<le> last_handle t" if "handle_to_resource t hn = Some r" 
    using assms that unfolding tracker_inv_def by blast
  then have fresh: "handle_to_resource t hn \<noteq> Some r"
    by (auto simp: hn_def)
  show ?thesis
    unfolding Add_untracked [OF None hn_def]
    using fresh by (cases "h = hn") auto
next
  case (Some h')
  have "handle_to_resource t h' = Some r'"
    using Some assms unfolding tracker_inv_def by blast
  then show ?thesis
    unfolding Add_tracked [OF Some] by auto
qed

lemma Remove_untracked:
  "resource_to_handle t r' = None \<Longrightarrow> Remove r' t = t"
  by (simp add: Remove_def)

lemma Remove_tracked:
  "resource_to_handle t r' = Some h' \<Longrightarrow>
   handle_to_resource (Remove r' t) = (handle_to_resource t)(h' := None)"
  by (simp add: Remove_def)

lemma handle_to_resource_Remove:
  assumes "tracker_inv t"
  shows "(handle_to_resource (Remove r' t) h = Some r) =
         (handle_to_resource t h = Some r \<and> r \<noteq> r')"
proof (cases "resource_to_handle t r'")
  case None
  have "handle_to_resource t h \<noteq> Some r'"
    using assms None unfolding tracker_inv_def by auto
  then show ?thesis
    unfolding Remove_untracked [OF None] by auto
next
  case (Some h')
  have a: "handle_to_resource t h' = Some r'"
    using Some assms unfolding tracker_inv_def by blast
  have b: "h = h'" if "handle_to_resource t h = Some r'"
    using Some assms that unfolding tracker_inv_def by auto
  show ?thesis
    unfolding Remove_tracked [OF Some]
    using a b by (cases "h = h'") auto
qed

lemma issued_Nil: "\<not> issued [] h r"
  by (simp add: issued_def)

lemma issued_snoc_Added:
  "issued (evs @ [Added r']) h r =
   (issued evs h r \<or> (r = r' \<and> h = fst (Add r' (tracker_after evs))))"
proof
  assume "issued (evs @ [Added r']) h r"
  then obtain pre post where eq: "evs @ [Added r'] = pre @ Added r # post"
    and h: "fst (Add r (tracker_after pre)) = h" and nd: "Destroyed r \<notin> set post"
    unfolding issued_def by blast
  from eq consider "post = []" "pre = evs" "r = r'"
    | post' where "post = post' @ [Added r']" "evs = pre @ Added r # post'"
    unfolding snoc_eq_append_Cons by auto
  then show "issued evs h r \<or> (r = r' \<and> h = fst (Add r' (tracker_after evs)))"
  proof cases
    case 1
    with h show ?thesis by simp
  next
    case 2
    with h nd have "issued evs h r"
      unfolding issued_def by auto
    then show ?thesis ..
  qed
next
  assume "issued evs h r \<or> (r = r' \<and> h = fst (Add r' (tracker_after evs)))"
  then show "issued (evs @ [Added r']) h r"
  proof
    assume "issued evs h r"
    then obtain pre post where "evs = pre @ Added r # post"
      "fst (Add r (tracker_after pre)) = h" "Destroyed r \<notin> set post"
      unfolding issued_def by blast
    then have "evs @ [Added r'] = pre @ Added r # (post @ [Added r']) \<and>
      fst (Add r (tracker_after pre)) = h \<and> Destroyed r \<notin> set (post @ [Added r'])"
      by simp
    then show ?thesis unfolding issued_def by blast
  next
    assume "r = r' \<and> h = fst (Add r' (tracker_after evs))"
    then have "evs @ [Added r'] = evs @ Added r # [] \<and>
      fst (Add r (tracker_after evs)) = h \<and> Destroyed r \<notin> set []"
      by simp
    then show ?thesis unfolding issued_def by blast
  qed
qed

lemma issued_snoc_Destroyed:
  "issued (evs @ [Destroyed r']) h r = (issued evs h r \<and> r \<noteq> r')"
proof
  assume "issued (evs @ [Destroyed r']) h r"
  then obtain pre post where eq: "evs @ [Destroyed r'] = pre @ Added r # post"
    and h: "fst (Add r (tracker_after pre)) = h" and nd: "Destroyed r \<notin> set post"
    unfolding issued_def by blast
  from eq obtain post' where post: "post = post' @ [Destroyed r']" "evs = pre @ Added r # post'"
    unfolding snoc_eq_append_Cons by auto
  with nd have "r \<noteq> r'" "Destroyed r \<notin> set post'" by auto
  with post h show "issued evs h r \<and> r \<noteq> r'"
    unfolding issued_def by auto
next
  assume a: "issued evs h r \<and> r \<noteq> r'"
  then obtain pre post where "evs = pre @ Added r # post"
    "fst (Add r (tracker_after pre)) = h" "Destroyed r \<notin> set post"
    unfolding issued_def by blast
  with a have "evs @ [Destroyed r'] = pre @ Added r # (post @ [Destroyed r']) \<and>
      fst (Add r (tracker_after pre)) = h \<and> Destroyed r \<notin> set (post @ [Destroyed r'])"
    by simp
  then show "issued (evs @ [Destroyed r']) h r"
    unfolding issued_def by blast
qed

lemma tracked_iff:
  "(handle_to_resource (tracker_after evs) h = Some r) = issued evs h r"
proof (induction evs rule: rev_induct)
  case Nil
  show ?case by (simp add: tracker_after_def new_tracker_def issued_Nil)
next
  case (snoc e evs)
  note inv = tracker_inv_after [of evs]
  show ?case
  proof (cases e)
    case (Added r')
    show ?thesis
      by (simp add: tracker_after_snoc Added handle_to_resource_Add [OF inv]
          issued_snoc_Added snoc.IH)
  next
    case (Destroyed r')
    show ?thesis
      by (simp add: tracker_after_snoc Destroyed handle_to_resource_Remove [OF inv]
          issued_snoc_Destroyed snoc.IH)
  qed
qed

lemma Add_twice: "fst (Add r (snd (Add r t))) = fst (Add r t)"
  by (cases "resource_to_handle t r") (simp_all add: Add_def Let_def)

text \<open>
  Claim C8. \<open>Add\<close> is idempotent: registering a resource that was just registered
  returns the same handle and leaves the tracker as it is. After any history of
  registrations and destruction notifications, starting from a new tracker,
  \<open>ContainsHandle h\<close> holds exactly when \<open>h\<close> is the handle some earlier \<open>Add\<close> returned
  for a resource that has not been destroyed since.
\<close>

theorem tracker_Add_idempotent_ContainsHandle_exact:
  "fst (Add r (snd (Add r t))) = fst (Add r t) \<and>
   snd (Add r (snd (Add r t))) = snd (Add r t) \<and>
   ContainsHandle (tracker_after evs) h =
     (\<exists>r' pre post. evs = pre @ Added r' # post \<and>
        fst (Add r' (tracker_after pre)) = h \<and> Destroyed r' \<notin> set post)"
proof (intro conjI)
  show "fst (Add r (snd (Add r t))) = fst (Add r t)"
    by (rule Add_twice)
  show "snd (Add r (snd (Add r t))) = snd (Add r t)"
    by (cases "resource_to_handle t r") (simp_all add: Add_def Let_def)
  have "ContainsHandle (tracker_after evs) h =
        (\<exists>r'. handle_to_resource (tracker_after evs) h = Some r')"
    by (simp add: ContainsHandle_def)
  also have "\<dots> = (\<exists>r'. issued evs h r')"
    by (simp add: tracked_iff)
  finally show "ContainsHandle (tracker_after evs) h =
     (\<exists>r' pre post. evs = pre @ Added r' # post \<and>
        fst (Add r' (tracker_after pre)) = h \<and> Destroyed r' \<notin> set post)"
    by (simp add: issued_def)
qed

subsection \<open>Commands given an untracked handle, and the browser-count command\<close>

lemma Send_connected:
  "channel w = Some sent \<Longrightarrow> Send msg w = Inr (w\<lparr>channel := Some (sent @ [msg])\<rparr>)"
  by (simp add: Send_def)

lemma then_do_Inr [simp]: "then_do (Inr x) k = k x"
  by (simp add: then_do_def)

lemma then_do_Inl [simp]: "then_do (Inl e) k = Inl e"
  by (simp add: then_do_def)

text \<open>
  Claim C9. A navigate-to-URL command with a handle that the tab tracker does not
  contain sends exactly one reply at once, carrying AUTOMATION\_MSG\_NAVIGATION\_ERROR,
  and changes nothing else: no observer is created on the heap and none is added to
  the provider's observer list. \<open>NavigateToURL\<close> is the same command with one
  navigation.
\<close>

theorem NavigateToURL_untracked_handle:
  assumes "\<not> ContainsHandle (tab_tracker w) h" and "channel w = Some sent"
  shows "NavigateToURLBlockUntilNavigationsComplete h url n reply w =
           Inr (w\<lparr>channel := Some (sent @
                  [reply\<lparr>params := params reply @
                           [NavigationResponse AUTOMATION_MSG_NAVIGATION_ERROR]\<rparr>])\<rparr>) \<and>
         NavigateToURL h url reply w =
           NavigateToURLBlockUntilNavigationsComplete h url 1 reply w"
  using assms
  by (simp add: NavigateToURLBlockUntilNavigationsComplete_def NavigateToURL_def
      Send_connected WriteReplyParams_def)

theorem NavigateToURL_untracked_handle_witness:
  "NavigateToURL 7 ''http://a/'' \<lparr>request = 1, params = []\<rparr> connected_world =
     Inr (connected_world\<lparr>channel :=
            Some [\<lparr>request = 1,
                   params = [NavigationResponse AUTOMATION_MSG_NAVIGATION_ERROR]\<rparr>]\<rparr>)"
  using NavigateToURL_untracked_handle
          [of connected_world 7 "[]" "''http://a/''" 1 "\<lparr>request = 1, params = []\<rparr>"]
  by (simp add: connected_world_def ContainsHandle_def new_tracker_def)

text \<open>
  Claim C10. When the browser list already has the target size, the
  wait-for-browser-window-count command sends one \<open>true\<close> reply at once and creates no
  observer; otherwise it sends nothing and creates a browser-count observer that holds
  the reply message and is registered for browser-opened and browser-closed
  notifications.
\<close>

theorem WaitForBrowserWindowCountToBecome_reply_or_observer:
  assumes "channel w = Some sent"
  shows "WaitForBrowserWindowCountToBecome target reply w =
           (if BrowserList_size w = target
            then Inr (w\<lparr>channel := Some (sent @
                        [reply\<lparr>params := params reply @ [BoolParam True]\<rparr>])\<rparr>)
            else Inr (w\<lparr>heap := heap w @
                        [Some (BrowserCountChange
                           \<lparr>registrar = [(BROWSER_OPENED, None), (BROWSER_CLOSED, None)],
                            reply_message = Some reply, target_count = target\<rparr>)]\<rparr>))"
  using assms
  by (simp add: WaitForBrowserWindowCountToBecome_def Send_connected WriteReplyParams_def
      new_observer_def BrowserCountChangeNotificationObserver_ctor_def)

theorem WaitForBrowserWindowCountToBecome_reply_or_observer_witness:
  "channel connected_world = Some [] \<and>
   WaitForBrowserWindowCountToBecome 1 \<lparr>request = 4, params = []\<rparr> connected_world =
     Inr (connected_world\<lparr>channel := Some [\<lparr>request = 4, params = [BoolParam True]\<rparr>]\<rparr>) \<and>
   WaitForBrowserWindowCountToBecome 3 \<lparr>request = 4, params = []\<rparr> connected_world =
     Inr (connected_world\<lparr>heap :=
            [Some (BrowserCountChange
               \<lparr>registrar = [(BROWSER_OPENED, None), (BROWSER_CLOSED, None)],
                reply_message = Some \<lparr>request = 4, params = []\<rparr>, target_count = 3\<rparr>)]\<rparr>)"
proof -
  have c: "channel connected_world = Some []"
    by (simp add: connected_world_def)
  have s: "BrowserList_size connected_world = 1" and h: "heap connected_world = []"
    by (simp_all add: connected_world_def)
  show ?thesis
    using WaitForBrowserWindowCountToBecome_reply_or_observer
            [OF c, of 1 "\<lparr>request = 4, params = []\<rparr>"]
          WaitForBrowserWindowCountToBecome_reply_or_observer
            [OF c, of 3 "\<lparr>request = 4, params = []\<rparr>"]
    by (simp add: c s h)
qed

text \<open>
  Claim C1. What \<open>CloseTab\<close> does with a tab handle that the tab tracker does not
  contain: it returns without sending anything on the connected channel, and the
  state is as before. (The claim asks for one error reply; none is sent.)
\<close>

theorem CloseTab_untracked_sends_nothing:
  "CloseTab 7 True \<lparr>request = 1, params = []\<rparr> connected_world = Inr connected_world \<and>
   channel connected_world = Some [] \<and>
   \<not> ContainsHandle (tab_tracker connected_world) 7"
  by (simp add: CloseTab_def connected_world_def ContainsHandle_def new_tracker_def)

subsection \<open>The navigation observer\<close>

lemma ctor_waiting:
  "NavigationNotificationObserver_ctor tab (Some m) N = Inr ob \<Longrightarrow>
   0 <s N \<and> ob = waiting_observer tab m N False"
  by (auto simp: NavigationNotificationObserver_ctor_def waiting_observer_def split: if_splits)

lemma heap_at_store:
  "a < length (heap w) \<Longrightarrow> heap_at (store a ob w) a = Some ob"
  by (simp add: heap_at_def store_def)

lemma heap_at_length: "heap_at w a = Some ob \<Longrightarrow> a < length (heap w)"
  by (auto simp: heap_at_def split: if_splits)

lemma store_store [simp]: "store a ob2 (store a ob1 w) = store a ob2 w"
  by (simp add: store_def)

lemma store_same:
  assumes "heap_at w a = Some ob"
  shows "store a ob w = w"
proof -
  from assms have "heap w ! a = Some ob"
    by (auto simp: heap_at_def split: if_splits)
  then have "(heap w)[a := Some ob] = heap w"
    by (metis list_update_id)
  then show ?thesis by (simp add: store_def)
qed

lemma channel_store [simp]: "channel (store a ob w) = channel w"
  by (simp add: store_def)

lemma length_heap_store [simp]: "length (heap (store a ob w)) = length (heap w)"
  by (simp add: store_def)

lemma notify_all_append:
  "notify_all a (xs @ ys) w = then_do (notify_all a xs w) (notify_all a ys)"
proof (induction xs arbitrary: w)
  case Nil
  show ?case by simp
next
  case (Cons n xs)
  show ?case
    by (cases "Notify a n w") (simp_all add: Cons.IH)
qed

lemma Notify_load_start:
  assumes "heap_at w a = Some (Navigation (waiting_observer tab m r s))"
  shows "Notify a (LOAD_START, tab, NoDetails) w =
         Inr (store a (Navigation (waiting_observer tab m r True)) w)"
  using assms
  by (simp add: Notify_def registered_def NavigationNotificationObserver_Observe_def
      waiting_observer_def)

lemma Notify_load_stop_more:
  assumes "heap_at w a = Some (Navigation (waiting_observer tab m r True))" and "r \<noteq> 1"
  shows "Notify a (LOAD_STOP, tab, NoDetails) w =
         Inr (store a (Navigation (waiting_observer tab m (r - 1) False)) w)"
  using assms
  by (simp add: Notify_def registered_def NavigationNotificationObserver_Observe_def
      waiting_observer_def Let_def)

lemma Notify_load_stop_last:
  assumes "heap_at w a = Some (Navigation (waiting_observer tab m 1 True))"
    and "channel w = Some sent"
  shows "Notify a (LOAD_STOP, tab, NoDetails) w =
         Inr (free a (RemoveNavigationStatusListener a
           (w\<lparr>channel := Some (sent @
               [WriteReplyParams m [NavigationResponse AUTOMATION_MSG_NAVIGATION_SUCCESS]])\<rparr>)))"
  using assms
  by (simp add: Notify_def registered_def NavigationNotificationObserver_Observe_def
      waiting_observer_def Let_def ConditionMet_def Send_connected
      delete_NavigationNotificationObserver_def NavigationNotificationObserver_dtor_def)

lemma load_pairs_Suc:
  "load_pairs tab (Suc n) =
     (LOAD_START, tab, NoDetails) # (LOAD_STOP, tab, NoDetails) # load_pairs tab n"
  by (simp add: load_pairs_def)

lemma load_pairs_0 [simp]: "load_pairs tab 0 = []"
  by (simp add: load_pairs_def)

lemma notify_load_pairs:
  assumes "heap_at w a = Some (Navigation (waiting_observer tab m r False))"
    and "j < unat r"
  shows "notify_all a (load_pairs tab j @ rest) w =
         notify_all a rest (store a (Navigation (waiting_observer tab m (r - of_nat j) False)) w)"
  using assms
proof (induction j arbitrary: w r)
  case 0
  then show ?case by (simp add: store_same)
next
  case (Suc j)
  have len: "a < length (heap w)"
    using Suc.prems(1) by (rule heap_at_length)
  have r1: "r \<noteq> 1" and r0: "r \<noteq> 0"
    using Suc.prems(2) by auto
  let ?w1 = "store a (Navigation (waiting_observer tab m r True)) w"
  let ?w2 = "store a (Navigation (waiting_observer tab m (r - 1) False)) w"
  have s1: "Notify a (LOAD_START, tab, NoDetails) w = Inr ?w1"
    using Suc.prems(1) by (rule Notify_load_start)
  have "Notify a (LOAD_STOP, tab, NoDetails) ?w1 =
          Inr (store a (Navigation (waiting_observer tab m (r - 1) False)) ?w1)"
    using heap_at_store [OF len] r1 by (rule Notify_load_stop_more)
  then have s2: "Notify a (LOAD_STOP, tab, NoDetails) ?w1 = Inr ?w2"
    by simp
  have h2: "heap_at ?w2 a = Some (Navigation (waiting_observer tab m (r - 1) False))"
    using len by (rule heap_at_store)
  have "unat (r - 1) = unat r - 1"
    using r0 by (rule unat_minus_one)
  then have j: "j < unat (r - 1)"
    using Suc.prems(2) by simp
  have "notify_all a (load_pairs tab (Suc j) @ rest) w =
        notify_all a (load_pairs tab j @ rest) ?w2"
    by (simp add: load_pairs_Suc s1 s2)
  also have "\<dots> = notify_all a rest
      (store a (Navigation (waiting_observer tab m (r - 1 - of_nat j) False)) ?w2)"
    using h2 j by (rule Suc.IH)
  finally show ?case by (simp add: algebra_simps)
qed

lemma take_load_pairs:
  "k \<le> 2 * n \<Longrightarrow>
   take k (load_pairs tab n) =
     load_pairs tab (k div 2) @ (if odd k then [(LOAD_START, tab, NoDetails)] else [])"
proof (induction n arbitrary: k)
  case 0
  then show ?case by simp
next
  case (Suc n)
  show ?case
  proof (cases k)
    case 0
    then show ?thesis by simp
  next
    case (Suc k1)
    show ?thesis
    proof (cases k1)
      case 0
      with Suc show ?thesis by (simp add: load_pairs_Suc)
    next
      case (Suc k2)
      with \<open>k = Suc k1\<close> Suc.prems have "k2 \<le> 2 * n" by simp
      then have "take k2 (load_pairs tab n) =
        load_pairs tab (k2 div 2) @ (if odd k2 then [(LOAD_START, tab, NoDetails)] else [])"
        by (rule Suc.IH)
      with Suc \<open>k = Suc k1\<close> show ?thesis by (simp add: load_pairs_Suc)
    qed
  qed
qed

lemma length_load_pairs [simp]: "length (load_pairs tab n) = 2 * n"
  by (induction n) (simp_all add: load_pairs_Suc)

lemma load_pairs_snoc:
  "load_pairs tab (Suc j) =
     load_pairs tab j @ [(LOAD_START, tab, NoDetails), (LOAD_STOP, tab, NoDetails)]"
  by (induction j) (simp_all add: load_pairs_Suc)

lemma notify_all_deleted: "heap_at w a = None \<Longrightarrow> notify_all a ns w = Inr w"
  by (induction ns) (simp_all add: Notify_def)

lemma heap_at_free: "heap_at (free a w) a = None"
  by (simp add: heap_at_def free_def)

lemma channel_free [simp]: "channel (free a w) = channel w"
  by (simp add: free_def)

lemma channel_RemoveNavigationStatusListener [simp]:
  "channel (RemoveNavigationStatusListener a w) = channel w"
  by (simp add: RemoveNavigationStatusListener_def)

lemma positive_unat: "0 <s (N :: cint) \<Longrightarrow> 0 < unat N"
  by (cases "N = 0") (simp_all add: unat_gt_0)

text \<open>
  Claim C2. A navigation observer constructed for \<open>N\<close> navigations (the constructor
  asserts \<open>0 < N\<close>) receives \<open>N\<close> pairs of load-start and load-stop. After every
  proper prefix of the notifications nothing has been sent and the observer is still
  alive; after the last load-stop exactly one message has been sent, the reply with
  AUTOMATION\_MSG\_NAVIGATION\_SUCCESS, and the observer is deleted, so that whatever
  is published afterwards changes nothing.
\<close>

theorem Navigation_observer_replies_once_at_Nth_stop:
  assumes ctor: "NavigationNotificationObserver_ctor tab (Some m) N = Inr ob"
    and heap: "heap_at w a = Some (Navigation ob)"
    and chan: "channel w = Some sent"
  shows "(\<forall>k < 2 * unat N. \<exists>w'.
            notify_all a (take k (load_pairs tab (unat N))) w = Inr w' \<and>
            channel w' = Some sent \<and> heap_at w' a \<noteq> None) \<and>
         (\<exists>w'. notify_all a (load_pairs tab (unat N)) w = Inr w' \<and>
            channel w' = Some (sent @
              [m\<lparr>params := params m @
                    [NavigationResponse AUTOMATION_MSG_NAVIGATION_SUCCESS]\<rparr>]) \<and>
            heap_at w' a = None \<and>
            (\<forall>more. notify_all a (load_pairs tab (unat N) @ more) w = Inr w'))"
proof (intro conjI allI impI)
  from ctor have pos: "0 <s N" and ob: "ob = waiting_observer tab m N False"
    using ctor_waiting by blast+
  from heap ob have h0: "heap_at w a = Some (Navigation (waiting_observer tab m N False))"
    by simp
  have len: "a < length (heap w)"
    using heap by (rule heap_at_length)
  {
    fix k
    assume k: "k < 2 * unat N"
    let ?j = "k div 2"
    let ?rest = "if odd k then [(LOAD_START, tab, NoDetails)] else []"
    let ?w1 = "store a (Navigation (waiting_observer tab m (N - of_nat ?j) False)) w"
    from k have j: "?j < unat N" by simp
    from k have "take k (load_pairs tab (unat N)) = load_pairs tab ?j @ ?rest"
      by (simp add: take_load_pairs)
    then have run: "notify_all a (take k (load_pairs tab (unat N))) w = notify_all a ?rest ?w1"
      using notify_load_pairs [OF h0 j] by simp
    have h1: "heap_at ?w1 a = Some (Navigation (waiting_observer tab m (N - of_nat ?j) False))"
      using len by (rule heap_at_store)
    show "\<exists>w'. notify_all a (take k (load_pairs tab (unat N))) w = Inr w' \<and>
            channel w' = Some sent \<and> heap_at w' a \<noteq> None"
    proof (cases "odd k")
      case True
      have "Notify a (LOAD_START, tab, NoDetails) ?w1 =
            Inr (store a (Navigation (waiting_observer tab m (N - of_nat ?j) True)) ?w1)"
        using h1 by (rule Notify_load_start)
      with True run chan len show ?thesis
        by (simp add: heap_at_store)
    next
      case False
      with run chan h1 show ?thesis by simp
    qed
  }
  obtain j where n: "unat N = Suc j"
    using positive_unat [OF pos] by (cases "unat N") simp_all
  have j: "j < unat N" using n by simp
  have "of_nat (unat N) = N" by simp
  then have "of_nat (Suc j) = N" by (simp only: n)
  then have "N = 1 + of_nat j" by simp
  then have one: "N - of_nat j = 1" by (simp only: add_diff_cancel_right')
  let ?w1 = "store a (Navigation (waiting_observer tab m 1 False)) w"
  let ?w2 = "store a (Navigation (waiting_observer tab m 1 True)) w"
  let ?wf = "free a (RemoveNavigationStatusListener a
           (?w2\<lparr>channel := Some (sent @
               [WriteReplyParams m [NavigationResponse AUTOMATION_MSG_NAVIGATION_SUCCESS]])\<rparr>))"
  have "Notify a (LOAD_START, tab, NoDetails) ?w1 =
          Inr (store a (Navigation (waiting_observer tab m 1 True)) ?w1)"
    using heap_at_store [OF len] by (rule Notify_load_start)
  then have s1: "Notify a (LOAD_START, tab, NoDetails) ?w1 = Inr ?w2" by simp
  have s2: "Notify a (LOAD_STOP, tab, NoDetails) ?w2 = Inr ?wf"
    using heap_at_store [OF len] by (rule Notify_load_stop_last) (simp add: chan)
  have "notify_all a (load_pairs tab (unat N)) w =
        notify_all a [(LOAD_START, tab, NoDetails), (LOAD_STOP, tab, NoDetails)] ?w1"
    unfolding n load_pairs_snoc using notify_load_pairs [OF h0 j] by (simp add: one)
  then have run: "notify_all a (load_pairs tab (unat N)) w = Inr ?wf"
    by (simp add: s1 s2)
  have gone: "heap_at ?wf a = None" by (rule heap_at_free)
  have more: "notify_all a (load_pairs tab (unat N) @ more) w = Inr ?wf" for more
    by (simp add: notify_all_append run notify_all_deleted [OF gone])
  show "\<exists>w'. notify_all a (load_pairs tab (unat N)) w = Inr w' \<and>
            channel w' = Some (sent @
              [m\<lparr>params := params m @
                    [NavigationResponse AUTOMATION_MSG_NAVIGATION_SUCCESS]\<rparr>]) \<and>
            heap_at w' a = None \<and>
            (\<forall>more. notify_all a (load_pairs tab (unat N) @ more) w = Inr w')"
    using run gone more by (simp add: WriteReplyParams_def)
qed

theorem Navigation_observer_replies_once_at_Nth_stop_witness:
  "NavigationNotificationObserver_ctor 5 (Some \<lparr>request = 1, params = []\<rparr>) 2 =
     Inr (waiting_observer 5 \<lparr>request = 1, params = []\<rparr> 2 False) \<and>
   heap_at navigating_world 0 =
     Some (Navigation (waiting_observer 5 \<lparr>request = 1, params = []\<rparr> 2 False)) \<and>
   channel navigating_world = Some [] \<and>
   (\<exists>w'. notify_all 0 (take 3 (load_pairs 5 (unat (2 :: cint)))) navigating_world = Inr w' \<and>
      channel w' = Some [] \<and> heap_at w' 0 \<noteq> None) \<and>
   (\<exists>w'. notify_all 0 (load_pairs 5 (unat (2 :: cint))) navigating_world = Inr w' \<and>
      channel w' = Some [\<lparr>request = 1,
                          params = [NavigationResponse AUTOMATION_MSG_NAVIGATION_SUCCESS]\<rparr>] \<and>
      heap_at w' 0 = None)"
proof -
  let ?m = "\<lparr>request = 1, params = []\<rparr>"
  have c: "NavigationNotificationObserver_ctor 5 (Some ?m) 2 =
             Inr (waiting_observer 5 ?m 2 False)"
    by (simp add: NavigationNotificationObserver_ctor_def waiting_observer_def word_sless_alt)
  have h: "heap_at navigating_world 0 = Some (Navigation (waiting_observer 5 ?m 2 False))"
    by (simp add: navigating_world_def heap_at_def)
  have s: "channel navigating_world = Some []"
    by (simp add: navigating_world_def connected_world_def)
  note t = Navigation_observer_replies_once_at_Nth_stop [OF c h s]
  from t have "\<exists>w'. notify_all 0 (take 3 (load_pairs 5 (unat (2 :: cint)))) navigating_world
                       = Inr w' \<and> channel w' = Some [] \<and> heap_at w' 0 \<noteq> None"
    by simp
  moreover from t have "\<exists>w'. notify_all 0 (load_pairs 5 (unat (2 :: cint))) navigating_world
      = Inr w' \<and>
      channel w' = Some [\<lparr>request = 1,
                          params = [NavigationResponse AUTOMATION_MSG_NAVIGATION_SUCCESS]\<rparr>] \<and>
      heap_at w' 0 = None"
    by auto
  ultimately show ?thesis using c h s by blast
qed

text \<open>
  Claim C3. Deleting a navigation observer that still holds its reply message writes
  AUTOMATION\_MSG\_NAVIGATION\_ERROR into the reply and sends it, exactly one message,
  before the observer leaves the provider's list and its storage is freed.
\<close>

theorem Navigation_observer_destroyed_replies_error:
  assumes "heap_at w this = Some (Navigation ob)"
    and "reply_message ob = Some m"
    and "channel w = Some sent"
  shows "\<exists>w'. delete_NavigationNotificationObserver this ob w = Inr w' \<and>
           channel w' = Some (sent @
             [m\<lparr>params := params m @
                   [NavigationResponse AUTOMATION_MSG_NAVIGATION_ERROR]\<rparr>]) \<and>
           heap_at w' this = None \<and>
           notification_observer_list w' = remove1 this (notification_observer_list w)"
  using assms
  by (simp add: delete_NavigationNotificationObserver_def
      NavigationNotificationObserver_dtor_def Send_connected WriteReplyParams_def
      heap_at_def RemoveNavigationStatusListener_def free_def)

theorem Navigation_observer_destroyed_replies_error_witness:
  "heap_at navigating_world 0 =
     Some (Navigation (waiting_observer 5 \<lparr>request = 1, params = []\<rparr> 2 False)) \<and>
   reply_message (waiting_observer 5 \<lparr>request = 1, params = []\<rparr> 2 False) =
     Some \<lparr>request = 1, params = []\<rparr> \<and>
   channel navigating_world = Some [] \<and>
   (\<exists>w'. delete_NavigationNotificationObserver 0
            (waiting_observer 5 \<lparr>request = 1, params = []\<rparr> 2 False) navigating_world = Inr w' \<and>
      channel w' = Some [\<lparr>request = 1,
                          params = [NavigationResponse AUTOMATION_MSG_NAVIGATION_ERROR]\<rparr>] \<and>
      heap_at w' 0 = None \<and> notification_observer_list w' = [])"
proof -
  let ?m = "\<lparr>request = 1, params = []\<rparr>"
  have h: "heap_at navigating_world 0 = Some (Navigation (waiting_observer 5 ?m 2 False))"
    by (simp add: navigating_world_def heap_at_def)
  have r: "reply_message (waiting_observer 5 ?m 2 False) = Some ?m"
    by (simp add: waiting_observer_def)
  have s: "channel navigating_world = Some []"
    by (simp add: navigating_world_def connected_world_def)
  have l: "notification_observer_list navigating_world = [0]"
    by (simp add: navigating_world_def)
  from Navigation_observer_destroyed_replies_error [OF h r s]
  show ?thesis using h r s l by simp
qed

subsection \<open>The browser-count observer\<close>

lemma heap_at_BrowserList_size [simp]:
  "heap_at (w\<lparr>BrowserList_size := c\<rparr>) a = heap_at w a"
  by (simp add: heap_at_def)

lemma browser_list_notifications_deleted:
  "heap_at w a = None \<Longrightarrow>
   \<exists>w'. browser_list_notifications a es w = Inr w' \<and> channel w' = channel w \<and>
        heap_at w' a = None"
proof (induction es arbitrary: w)
  case Nil
  then show ?case by simp
next
  case (Cons e es)
  have "heap_at (w\<lparr>BrowserList_size := snd e\<rparr>) a = None"
    using Cons.prems by simp
  from Cons.IH [OF this] Cons.prems show ?case
    by (simp add: browser_list_notification_def Notify_def)
qed

lemma count_observer_registered:
  "browser_list_event_ok e \<Longrightarrow>
   registered (BrowserCountChange (BrowserCountChangeNotificationObserver_ctor target r))
     (fst e) src"
  by (auto simp: registered_def BrowserCountChangeNotificationObserver_ctor_def
      browser_list_event_ok_def)

lemma count_observer_Observe_no:
  assumes "browser_list_event_ok e" and "\<not> reaches_target target e"
    and "BrowserList_size w = snd e"
  shows "BrowserCountChangeNotificationObserver_Observe a
           (BrowserCountChangeNotificationObserver_ctor target r) (fst e) w = Inr w"
proof -
  from assms(1) have "fst e = BROWSER_OPENED \<or> fst e = BROWSER_CLOSED"
    and "\<not> (fst e = BROWSER_CLOSED \<and> \<not> 0 <s snd e)"
    by (auto simp: browser_list_event_ok_def)
  moreover from assms(2)
  have "adjusted_count (fst e) (snd e) \<noteq>
        target_count (BrowserCountChangeNotificationObserver_ctor target r)"
    by (simp add: reaches_target_def BrowserCountChangeNotificationObserver_ctor_def)
  ultimately show ?thesis
    by (simp only: BrowserCountChangeNotificationObserver_Observe_def Let_def assms(3)
        if_False if_True simp_thms)
qed

lemma count_observer_Observe_yes:
  assumes "browser_list_event_ok e" and "reaches_target target e"
    and "BrowserList_size w = snd e" and "channel w = Some sent"
  shows "BrowserCountChangeNotificationObserver_Observe a
           (BrowserCountChangeNotificationObserver_ctor target (Some m)) (fst e) w =
         Inr (free a (w\<lparr>channel := Some (sent @ [WriteReplyParams m [BoolParam True]])\<rparr>))"
proof -
  from assms(1) have "fst e = BROWSER_OPENED \<or> fst e = BROWSER_CLOSED"
    and "\<not> (fst e = BROWSER_CLOSED \<and> \<not> 0 <s snd e)"
    by (auto simp: browser_list_event_ok_def)
  moreover from assms(2)
  have "adjusted_count (fst e) (snd e) =
        target_count (BrowserCountChangeNotificationObserver_ctor target (Some m))"
    by (simp add: reaches_target_def BrowserCountChangeNotificationObserver_ctor_def)
  moreover have "reply_message (BrowserCountChangeNotificationObserver_ctor target (Some m))
                 = Some m"
    by (simp add: BrowserCountChangeNotificationObserver_ctor_def)
  ultimately show ?thesis
    by (simp only: BrowserCountChangeNotificationObserver_Observe_def Let_def assms(3)
        if_False if_True simp_thms option.case Send_connected [OF assms(4)]
        then_do_Inr)
qed

lemma count_observer_step_no:
  assumes "heap_at w a = Some (BrowserCountChange
                                (BrowserCountChangeNotificationObserver_ctor target (Some m)))"
    and "browser_list_event_ok e" and "\<not> reaches_target target e"
  shows "browser_list_notification a e w = Inr (w\<lparr>BrowserList_size := snd e\<rparr>)"
  using assms(1) count_observer_registered [OF assms(2)]
    count_observer_Observe_no [OF assms(2,3), of "w\<lparr>BrowserList_size := snd e\<rparr>"]
  by (simp add: browser_list_notification_def Notify_def)

lemma count_observer_step_yes:
  assumes "heap_at w a = Some (BrowserCountChange
                                (BrowserCountChangeNotificationObserver_ctor target (Some m)))"
    and "browser_list_event_ok e" and "reaches_target target e"
    and "channel w = Some sent"
  shows "browser_list_notification a e w =
         Inr (free a (w\<lparr>BrowserList_size := snd e,
                          channel := Some (sent @ [WriteReplyParams m [BoolParam True]])\<rparr>))"
  using assms(1) count_observer_registered [OF assms(2)]
    count_observer_Observe_yes [OF assms(2,3), of "w\<lparr>BrowserList_size := snd e\<rparr>" sent a m]
    assms(4)
  by (simp add: browser_list_notification_def Notify_def)

lemma count_observer_run:
  assumes "heap_at w a = Some (BrowserCountChange
                                (BrowserCountChangeNotificationObserver_ctor target (Some m)))"
    and "channel w = Some sent"
    and "list_all browser_list_event_ok es"
  shows "\<exists>w'. browser_list_notifications a es w = Inr w' \<and>
           (if list_ex (reaches_target target) es
            then channel w' = Some (sent @ [WriteReplyParams m [BoolParam True]]) \<and>
                 heap_at w' a = None
            else channel w' = Some sent \<and>
                 heap_at w' a = Some (BrowserCountChange
                   (BrowserCountChangeNotificationObserver_ctor target (Some m))))"
  using assms
proof (induction es arbitrary: w)
  case Nil
  then show ?case by simp
next
  case (Cons e es)
  from Cons.prems(3) have ok: "browser_list_event_ok e" and oks: "list_all browser_list_event_ok es"
    by simp_all
  show ?case
  proof (cases "reaches_target target e")
    case True
    let ?w1 = "free a (w\<lparr>BrowserList_size := snd e,
                          channel := Some (sent @ [WriteReplyParams m [BoolParam True]])\<rparr>)"
    have step: "browser_list_notification a e w = Inr ?w1"
      using Cons.prems(1) ok True Cons.prems(2) by (rule count_observer_step_yes)
    have "heap_at ?w1 a = None" by (rule heap_at_free)
    from browser_list_notifications_deleted [OF this, of es]
    show ?thesis using True step by auto
  next
    case False
    let ?w1 = "w\<lparr>BrowserList_size := snd e\<rparr>"
    have step: "browser_list_notification a e w = Inr ?w1"
      using Cons.prems(1) ok False by (rule count_observer_step_no)
    have "heap_at ?w1 a = Some (BrowserCountChange
                                (BrowserCountChangeNotificationObserver_ctor target (Some m)))"
      using Cons.prems(1) by simp
    moreover have "channel ?w1 = Some sent"
      using Cons.prems(2) by simp
    ultimately have "\<exists>w'. browser_list_notifications a es ?w1 = Inr w' \<and>
           (if list_ex (reaches_target target) es
            then channel w' = Some (sent @ [WriteReplyParams m [BoolParam True]]) \<and>
                 heap_at w' a = None
            else channel w' = Some sent \<and>
                 heap_at w' a = Some (BrowserCountChange
                   (BrowserCountChangeNotificationObserver_ctor target (Some m))))"
      using oks by (rule Cons.IH)
    then show ?thesis using False step by simp
  qed
qed

lemma list_all_take: "list_all P xs \<Longrightarrow> list_all P (take k xs)"
  by (auto simp: list_all_iff dest: in_set_takeD)

text \<open>
  Claim C4. The browser-count observer with target \<open>T\<close> compares \<open>C - 1\<close> with \<open>T\<close> at a
  browser-closed notification and \<open>C\<close> at a browser-opened one, \<open>C\<close> being the size of
  the browser list. After any number of notifications: if none of them reached the
  target, nothing was sent and the observer is alive; from the first one that reached
  it on, exactly one message was sent, the reply with \<open>true\<close>, and the observer is
  deleted.
\<close>

theorem BrowserCount_observer_replies_at_first_match:
  assumes "heap_at w a = Some (BrowserCountChange
                                (BrowserCountChangeNotificationObserver_ctor target (Some m)))"
    and "channel w = Some sent"
    and "list_all browser_list_event_ok es"
  shows "adjusted_count BROWSER_CLOSED c = c - 1 \<and> adjusted_count BROWSER_OPENED c = c \<and>
         (\<forall>k \<le> length es. \<exists>w'.
            browser_list_notifications a (take k es) w = Inr w' \<and>
            (if list_ex (\<lambda>e. adjusted_count (fst e) (snd e) = target) (take k es)
             then channel w' = Some (sent @ [m\<lparr>params := params m @ [BoolParam True]\<rparr>]) \<and>
                  heap_at w' a = None
             else channel w' = Some sent \<and> heap_at w' a \<noteq> None))"
proof (intro conjI allI impI)
  show "adjusted_count BROWSER_CLOSED c = c - 1" "adjusted_count BROWSER_OPENED c = c"
    by (simp_all add: adjusted_count_def)
next
  fix k
  have "list_all browser_list_event_ok (take k es)"
    using assms(3) by (rule list_all_take)
  from count_observer_run [OF assms(1,2) this]
  show "\<exists>w'. browser_list_notifications a (take k es) w = Inr w' \<and>
            (if list_ex (\<lambda>e. adjusted_count (fst e) (snd e) = target) (take k es)
             then channel w' = Some (sent @ [m\<lparr>params := params m @ [BoolParam True]\<rparr>]) \<and>
                  heap_at w' a = None
             else channel w' = Some sent \<and> heap_at w' a \<noteq> None)"
    unfolding reaches_target_def [abs_def] WriteReplyParams_def
    by (auto split: if_splits)
qed

theorem BrowserCount_observer_replies_at_first_match_witness:
  "heap_at counting_world 0 =
     Some (BrowserCountChange
             (BrowserCountChangeNotificationObserver_ctor 2 (Some \<lparr>request = 4, params = []\<rparr>))) \<and>
   channel counting_world = Some [] \<and>
   list_all browser_list_event_ok
     [(BROWSER_OPENED, 3), (BROWSER_CLOSED, 3), (BROWSER_OPENED, 2)] \<and>
   (\<exists>w'. browser_list_notifications 0 [(BROWSER_OPENED, 3)] counting_world = Inr w' \<and>
      channel w' = Some [] \<and> heap_at w' 0 \<noteq> None) \<and>
   (\<exists>w'. browser_list_notifications 0 [(BROWSER_OPENED, 3), (BROWSER_CLOSED, 3)]
            counting_world = Inr w' \<and>
      channel w' = Some [\<lparr>request = 4, params = [BoolParam True]\<rparr>] \<and> heap_at w' 0 = None) \<and>
   (\<exists>w'. browser_list_notifications 0
            [(BROWSER_OPENED, 3), (BROWSER_CLOSED, 3), (BROWSER_OPENED, 2)]
            counting_world = Inr w' \<and>
      channel w' = Some [\<lparr>request = 4, params = [BoolParam True]\<rparr>] \<and> heap_at w' 0 = None)"
proof -
  let ?es = "[(BROWSER_OPENED, 3), (BROWSER_CLOSED, 3), (BROWSER_OPENED, 2)]
             :: (NotificationType \<times> cint) list"
  have h: "heap_at counting_world 0 =
     Some (BrowserCountChange
             (BrowserCountChangeNotificationObserver_ctor 2 (Some \<lparr>request = 4, params = []\<rparr>)))"
    by (simp add: counting_world_def heap_at_def)
  have c: "channel counting_world = Some []"
    by (simp add: counting_world_def connected_world_def)
  have ok: "list_all browser_list_event_ok ?es"
    by (simp add: browser_list_event_ok_def word_sless_alt)
  note t = BrowserCount_observer_replies_at_first_match [OF h c ok, of 0, THEN conjunct2,
      THEN conjunct2]
  have t1: "\<exists>w'. browser_list_notifications 0 [(BROWSER_OPENED, 3)] counting_world = Inr w' \<and>
      channel w' = Some [] \<and> heap_at w' 0 \<noteq> None"
    using t [THEN spec, of 1] by (simp add: adjusted_count_def)
  have t2: "\<exists>w'. browser_list_notifications 0 [(BROWSER_OPENED, 3), (BROWSER_CLOSED, 3)]
            counting_world = Inr w' \<and>
      channel w' = Some [\<lparr>request = 4, params = [BoolParam True]\<rparr>] \<and> heap_at w' 0 = None"
    using t [THEN spec, of 2] by (simp add: adjusted_count_def)
  have t3: "\<exists>w'. browser_list_notifications 0 ?es counting_world = Inr w' \<and>
      channel w' = Some [\<lparr>request = 4, params = [BoolParam True]\<rparr>] \<and> heap_at w' 0 = None"
    using t [THEN spec, of 3] by (simp add: adjusted_count_def)
  from h c ok t1 t2 t3 show ?thesis by blast
qed

subsection \<open>The find-in-page observer\<close>

lemma case_snoc_last: "(case xs @ [y] of [] \<Rightarrow> a | ys \<Rightarrow> last ys) = y"
  by (cases xs) simp_all

lemma foldl_seen_ordinal:
  "foldl seen_ordinal acc ds =
     (case filter (\<lambda>ordinal. - 1 <s ordinal) (map active_match_ordinal ds) of
        [] \<Rightarrow> acc
      | ordinals \<Rightarrow> last ordinals)"
proof (induction ds rule: rev_induct)
  case Nil
  show ?case by simp
next
  case (snoc d ds)
  have step: "foldl seen_ordinal acc (ds @ [d]) = seen_ordinal (foldl seen_ordinal acc ds) d"
    by simp
  show ?case
  proof (cases "- 1 <s active_match_ordinal d")
    case True
    then have "filter (\<lambda>ordinal. - 1 <s ordinal) (map active_match_ordinal (ds @ [d])) =
               filter (\<lambda>ordinal. - 1 <s ordinal) (map active_match_ordinal ds) @
               [active_match_ordinal d]"
      by simp
    moreover from True have "seen_ordinal (foldl seen_ordinal acc ds) d = active_match_ordinal d"
      by (simp add: seen_ordinal_def)
    ultimately show ?thesis
      by (simp only: step case_snoc_last)
  next
    case False
    then have "filter (\<lambda>ordinal. - 1 <s ordinal) (map active_match_ordinal (ds @ [d])) =
               filter (\<lambda>ordinal. - 1 <s ordinal) (map active_match_ordinal ds)"
      by simp
    moreover from False
    have "seen_ordinal (foldl seen_ordinal acc ds) d = foldl seen_ordinal acc ds"
      by (simp add: seen_ordinal_def)
    ultimately show ?thesis
      by (simp only: step snoc.IH)
  qed
qed

lemma ctor_find_observer:
  "FindInPageNotificationObserver_ctor tab r = find_observer tab r (- 1)"
  by (simp add: FindInPageNotificationObserver_ctor_def find_observer_def)

lemma find_registered:
  "registered (FindInPage (find_observer tab r acc)) FIND_RESULT_AVAILABLE tab"
  by (simp add: registered_def find_observer_def)

lemma Notify_find_partial:
  assumes "heap_at w a = Some (FindInPage (find_observer tab r acc))"
    and "partial_update d"
  shows "Notify a (find_notification tab d) w =
         Inr (DLOG LOG_INFO ''Ignoring, since we only care about the final message''
                (store a (FindInPage (find_observer tab r (seen_ordinal acc d))) w))"
proof -
  from assms(2) have "request_id d = kFindInPageRequestId" "\<not> final_update d"
    by (simp_all add: partial_update_def)
  then show ?thesis
    using assms(1) find_registered [of tab r acc]
    by (simp add: Notify_def find_notification_def FindInPageNotificationObserver_Observe_def
        Let_def seen_ordinal_def find_observer_def)
qed

lemma Notify_find_final:
  assumes "heap_at w a = Some (FindInPage (find_observer tab (Some m) acc))"
    and "final_result d" and "channel w = Some sent"
  shows "Notify a (find_notification tab d) w =
         Inr (store a (FindInPage (find_observer tab None (seen_ordinal acc d)))
                (w\<lparr>channel := Some (sent @
                     [WriteReplyParams m [IntParam (seen_ordinal acc d),
                                          IntParam (number_of_matches d)]])\<rparr>))"
proof -
  from assms(2) have "request_id d = kFindInPageRequestId" "final_update d"
    by (simp_all add: final_result_def)
  then show ?thesis
    using assms(1,3) find_registered [of tab "Some m" acc]
    by (simp add: Notify_def find_notification_def FindInPageNotificationObserver_Observe_def
        Let_def seen_ordinal_def find_observer_def Send_connected)
qed

lemma Notify_find_final_again:
  assumes "heap_at w a = Some (FindInPage (find_observer tab None acc))"
    and "final_result d"
  shows "Notify a (find_notification tab d) w =
         Inr (DLOG LOG_WARNING ''Multiple final Find messages observed.''
                (store a (FindInPage (find_observer tab None (seen_ordinal acc d))) w))"
proof -
  from assms(2) have "request_id d = kFindInPageRequestId" "final_update d"
    by (simp_all add: final_result_def)
  then show ?thesis
    using assms(1) find_registered [of tab None acc]
    by (simp add: Notify_def find_notification_def FindInPageNotificationObserver_Observe_def
        Let_def seen_ordinal_def find_observer_def)
qed

lemma notify_find_partials:
  assumes "heap_at w a = Some (FindInPage (find_observer tab r acc))"
    and "list_all partial_update ds"
  shows "notify_all a (map (find_notification tab) ds @ rest) w =
         notify_all a rest
           (w\<lparr>heap := (heap w)[a := Some (FindInPage
                          (find_observer tab r (foldl seen_ordinal acc ds)))],
              dlog := dlog w @ replicate (length ds)
                        (LOG_INFO, ''Ignoring, since we only care about the final message'')\<rparr>)"
  using assms
proof (induction ds arbitrary: w acc)
  case Nil
  from Nil.prems(1) have "heap w ! a = Some (FindInPage (find_observer tab r acc))"
    by (auto simp: heap_at_def split: if_splits)
  then have "(heap w)[a := Some (FindInPage (find_observer tab r acc))] = heap w"
    by (metis list_update_id)
  then show ?case by simp
next
  case (Cons d ds)
  from Cons.prems(2) have d: "partial_update d" and ds: "list_all partial_update ds"
    by simp_all
  let ?w1 = "DLOG LOG_INFO ''Ignoring, since we only care about the final message''
                (store a (FindInPage (find_observer tab r (seen_ordinal acc d))) w)"
  have len: "a < length (heap w)"
    using Cons.prems(1) by (rule heap_at_length)
  have step: "Notify a (find_notification tab d) w = Inr ?w1"
    using Cons.prems(1) d by (rule Notify_find_partial)
  have h1: "heap_at ?w1 a = Some (FindInPage (find_observer tab r (seen_ordinal acc d)))"
    using len by (simp add: heap_at_def DLOG_def store_def)
  have "notify_all a (map (find_notification tab) (d # ds) @ rest) w =
        notify_all a (map (find_notification tab) ds @ rest) ?w1"
    by (simp add: step)
  also note Cons.IH [OF h1 ds]
  finally show ?case
    by (simp add: DLOG_def store_def replicate_app_Cons_same)
qed

lemma notify_find_finals_again:
  assumes "heap_at w a = Some (FindInPage (find_observer tab None acc))"
    and "list_all final_result fs"
  shows "notify_all a (map (find_notification tab) fs @ rest) w =
         notify_all a rest
           (w\<lparr>heap := (heap w)[a := Some (FindInPage
                          (find_observer tab None (foldl seen_ordinal acc fs)))],
              dlog := dlog w @ replicate (length fs)
                        (LOG_WARNING, ''Multiple final Find messages observed.'')\<rparr>)"
  using assms
proof (induction fs arbitrary: w acc)
  case Nil
  from Nil.prems(1) have "heap w ! a = Some (FindInPage (find_observer tab None acc))"
    by (auto simp: heap_at_def split: if_splits)
  then have "(heap w)[a := Some (FindInPage (find_observer tab None acc))] = heap w"
    by (metis list_update_id)
  then show ?case by simp
next
  case (Cons d ds)
  from Cons.prems(2) have d: "final_result d" and ds: "list_all final_result ds"
    by simp_all
  let ?w1 = "DLOG LOG_WARNING ''Multiple final Find messages observed.''
                (store a (FindInPage (find_observer tab None (seen_ordinal acc d))) w)"
  have len: "a < length (heap w)"
    using Cons.prems(1) by (rule heap_at_length)
  have step: "Notify a (find_notification tab d) w = Inr ?w1"
    using Cons.prems(1) d by (rule Notify_find_final_again)
  have h1: "heap_at ?w1 a = Some (FindInPage (find_observer tab None (seen_ordinal acc d)))"
    using len by (simp add: heap_at_def DLOG_def store_def)
  have "notify_all a (map (find_notification tab) (d # ds) @ rest) w =
        notify_all a (map (find_notification tab) ds @ rest) ?w1"
    by (simp add: step)
  also note Cons.IH [OF h1 ds]
  finally show ?case
    by (simp add: DLOG_def store_def replicate_app_Cons_same)
qed

lemma find_observer_run:
  assumes heap: "heap_at w a = Some (FindInPage (FindInPageNotificationObserver_ctor tab (Some m)))"
    and chan: "channel w = Some sent"
    and ds: "list_all partial_update ds" and f: "final_result f"
    and fs: "list_all final_result fs"
  shows "\<exists>w0 w1 w2.
      notify_all a (map (find_notification tab) ds) w = Inr w0 \<and> channel w0 = Some sent \<and>
      notify_all a (map (find_notification tab) (ds @ [f])) w = Inr w1 \<and>
      channel w1 = Some (sent @
        [m\<lparr>params := params m @
              [IntParam (last_ordinal (ds @ [f])), IntParam (number_of_matches f)]\<rparr>]) \<and>
      notify_all a (map (find_notification tab) (ds @ [f] @ fs)) w = Inr w2 \<and>
      channel w2 = channel w1 \<and>
      dlog w2 = dlog w1 @ replicate (length fs)
                  (LOG_WARNING, ''Multiple final Find messages observed.'')"
proof -
  let ?acc = "foldl seen_ordinal (- 1) ds"
  let ?w0 = "w\<lparr>heap := (heap w)[a := Some (FindInPage (find_observer tab (Some m) ?acc))],
              dlog := dlog w @ replicate (length ds)
                        (LOG_INFO, ''Ignoring, since we only care about the final message'')\<rparr>"
  let ?reply = "WriteReplyParams m [IntParam (seen_ordinal ?acc f),
                                     IntParam (number_of_matches f)]"
  let ?w1 = "store a (FindInPage (find_observer tab None (seen_ordinal ?acc f)))
               (?w0\<lparr>channel := Some (sent @ [?reply])\<rparr>)"
  let ?w2 = "?w1\<lparr>heap := (heap ?w1)[a := Some (FindInPage
                 (find_observer tab None (foldl seen_ordinal (seen_ordinal ?acc f) fs)))],
               dlog := dlog ?w1 @ replicate (length fs)
                         (LOG_WARNING, ''Multiple final Find messages observed.'')\<rparr>"
  have h: "heap_at w a = Some (FindInPage (find_observer tab (Some m) (- 1)))"
    using heap by (simp add: ctor_find_observer)
  have len: "a < length (heap w)"
    using heap by (rule heap_at_length)
  have partials: "notify_all a (map (find_notification tab) ds @ rest) w =
                  notify_all a rest ?w0" for rest
    using h ds by (rule notify_find_partials)
  have r0: "notify_all a (map (find_notification tab) ds) w = Inr ?w0"
    using partials [of "[]"] by simp
  have h0: "heap_at ?w0 a = Some (FindInPage (find_observer tab (Some m) ?acc))"
    using len by (simp add: heap_at_def)
  have c0: "channel ?w0 = Some sent"
    using chan by simp
  have final: "Notify a (find_notification tab f) ?w0 = Inr ?w1"
    using h0 f c0 by (rule Notify_find_final)
  have r1: "notify_all a (map (find_notification tab) (ds @ [f])) w = Inr ?w1"
    using partials [of "[find_notification tab f]"] by (simp add: final)
  have h1: "heap_at ?w1 a = Some (FindInPage (find_observer tab None (seen_ordinal ?acc f)))"
    using len by (simp add: heap_at_def store_def)
  have again: "notify_all a (map (find_notification tab) fs @ []) ?w1 = notify_all a [] ?w2"
    using h1 fs by (rule notify_find_finals_again)
  have "notify_all a (map (find_notification tab) (ds @ [f] @ fs)) w =
        notify_all a (map (find_notification tab) fs) ?w1"
    using partials [of "find_notification tab f # map (find_notification tab) fs"]
    by (simp add: final)
  then have r2: "notify_all a (map (find_notification tab) (ds @ [f] @ fs)) w = Inr ?w2"
    using again by simp
  have "seen_ordinal ?acc f = foldl seen_ordinal (- 1) (ds @ [f])"
    by simp
  then have ord: "seen_ordinal ?acc f = last_ordinal (ds @ [f])"
    by (simp only: foldl_seen_ordinal last_ordinal_def)
  have c1: "channel ?w1 = Some (sent @
        [m\<lparr>params := params m @
              [IntParam (last_ordinal (ds @ [f])), IntParam (number_of_matches f)]\<rparr>])"
    by (simp add: ord [symmetric] WriteReplyParams_def)
  have c2: "channel ?w2 = channel ?w1" by simp
  have l2: "dlog ?w2 = dlog ?w1 @ replicate (length fs)
                  (LOG_WARNING, ''Multiple final Find messages observed.'')"
    by simp
  from r0 c0 r1 c1 r2 c2 l2 show ?thesis by blast
qed

lemma last_ordinal_last_seen:
  assumes "list_all ordinal_or_none ds"
  shows "last_ordinal ds = last_seen_ordinal ds"
proof -
  have "(- 1 <s active_match_ordinal d) = (active_match_ordinal d \<noteq> - 1)"
    if "d \<in> set ds" for d
  proof -
    from assms that have "- 1 \<le>s active_match_ordinal d"
      by (simp add: list_all_iff ordinal_or_none_def)
    then show ?thesis
      by (auto simp: word_sless_eq)
  qed
  then have "filter (\<lambda>ordinal. - 1 <s ordinal) (map active_match_ordinal ds) =
             filter (\<lambda>ordinal. ordinal \<noteq> - 1) (map active_match_ordinal ds)"
    by (simp add: filter_map o_def cong: filter_cong)
  then show ?thesis
    by (simp only: last_ordinal_def last_seen_ordinal_def)
qed

text \<open>
  Claim C5. The find-in-page observer receives partial results of its request and then
  a final one, each with the ordinal of its active match or \<open>-1\<close>. Nothing is sent before
  the final result; at the final result exactly one reply is sent, with the last ordinal
  observed among all these results, ignoring ordinals of \<open>-1\<close>, and the match count of
  the final result. Further final results are logged with a warning each and send
  nothing.
\<close>

theorem FindInPage_observer_replies_once_on_final:
  assumes heap: "heap_at w a = Some (FindInPage (FindInPageNotificationObserver_ctor tab (Some m)))"
    and chan: "channel w = Some sent"
    and ds: "list_all partial_update ds" and f: "final_result f"
    and fs: "list_all final_result fs"
    and ordinals: "list_all ordinal_or_none (ds @ [f])"
  shows "\<exists>w0 w1 w2.
      notify_all a (map (find_notification tab) ds) w = Inr w0 \<and> channel w0 = Some sent \<and>
      notify_all a (map (find_notification tab) (ds @ [f])) w = Inr w1 \<and>
      channel w1 = Some (sent @
        [m\<lparr>params := params m @
              [IntParam (last_seen_ordinal (ds @ [f])), IntParam (number_of_matches f)]\<rparr>]) \<and>
      notify_all a (map (find_notification tab) (ds @ [f] @ fs)) w = Inr w2 \<and>
      channel w2 = channel w1 \<and>
      dlog w2 = dlog w1 @ replicate (length fs)
                  (LOG_WARNING, ''Multiple final Find messages observed.'')"
proof -
  have "last_ordinal (ds @ [f]) = last_seen_ordinal (ds @ [f])"
    using ordinals by (rule last_ordinal_last_seen)
  with find_observer_run [OF heap chan ds f fs] show ?thesis
    by (simp only:)
qed

theorem FindInPage_observer_replies_once_on_final_witness:
  "heap_at finding_world 0 =
     Some (FindInPage (FindInPageNotificationObserver_ctor 9 (Some \<lparr>request = 6, params = []\<rparr>))) \<and>
   channel finding_world = Some [] \<and>
   list_all partial_update [find_result 3 5 False, find_result (- 1) 5 False] \<and>
   final_result (find_result (- 1) 5 True) \<and>
   list_all final_result [find_result (- 1) 5 True] \<and>
   list_all ordinal_or_none
     [find_result 3 5 False, find_result (- 1) 5 False, find_result (- 1) 5 True] \<and>
   (\<exists>w1 w2.
      notify_all 0 (map (find_notification 9)
        [find_result 3 5 False, find_result (- 1) 5 False, find_result (- 1) 5 True])
        finding_world = Inr w1 \<and>
      channel w1 = Some [\<lparr>request = 6, params = [IntParam 3, IntParam 5]\<rparr>] \<and>
      notify_all 0 (map (find_notification 9)
        [find_result 3 5 False, find_result (- 1) 5 False, find_result (- 1) 5 True,
         find_result (- 1) 5 True])
        finding_world = Inr w2 \<and>
      channel w2 = Some [\<lparr>request = 6, params = [IntParam 3, IntParam 5]\<rparr>] \<and>
      dlog w2 = dlog w1 @ [(LOG_WARNING, ''Multiple final Find messages observed.'')])"
proof -
  let ?ds = "[find_result 3 5 False, find_result (- 1) 5 False]"
  let ?f = "find_result (- 1) 5 True"
  have h: "heap_at finding_world 0 =
     Some (FindInPage (FindInPageNotificationObserver_ctor 9 (Some \<lparr>request = 6, params = []\<rparr>)))"
    by (simp add: finding_world_def heap_at_def)
  have c: "channel finding_world = Some []"
    by (simp add: finding_world_def connected_world_def)
  have ds: "list_all partial_update ?ds"
    by (simp add: partial_update_def find_result_def)
  have f: "final_result ?f"
    by (simp add: final_result_def find_result_def)
  have fs: "list_all final_result [?f]"
    using f by simp
  have os: "list_all ordinal_or_none (?ds @ [?f])"
    by (simp add: ordinal_or_none_def find_result_def word_sle_eq)
  have ord: "last_seen_ordinal (?ds @ [?f]) = 3"
    by (simp add: last_seen_ordinal_def find_result_def)
  have n: "number_of_matches ?f = 5"
    by (simp add: find_result_def)
  from FindInPage_observer_replies_once_on_final [OF h c ds f fs os]
  have "\<exists>w1 w2.
      notify_all 0 (map (find_notification 9) (?ds @ [?f])) finding_world = Inr w1 \<and>
      channel w1 = Some [\<lparr>request = 6, params = [IntParam 3, IntParam 5]\<rparr>] \<and>
      notify_all 0 (map (find_notification 9) (?ds @ [?f] @ [?f])) finding_world = Inr w2 \<and>
      channel w2 = Some [\<lparr>request = 6, params = [IntParam 3, IntParam 5]\<rparr>] \<and>
      dlog w2 = dlog w1 @ [(LOG_WARNING, ''Multiple final Find messages observed.'')]"
    unfolding ord n by auto
  with h c ds f fs os show ?thesis by simp
qed

subsection \<open>The proxy configuration task\<close>

text \<open>
  Claim C7. When the text does not deserialize to a dictionary (no value at all, or a
  value of another type), the task logs one warning with the deserializer's error
  message and changes nothing else: the proxy service keeps its configuration.
\<close>

theorem malformed_proxy_config_is_logged_and_dropped:
  assumes "\<forall>dict. fst (Deserialize lib proxy_config) \<noteq> Some (DictionaryValue dict)"
  shows "SetProxyConfigTask_Run lib proxy_config s =
           Inr (s\<lparr>io_log := io_log s @
                  [(LOG_WARNING, ''Received bad JSON string for ProxyConfig: '' @
                                 snd (Deserialize lib proxy_config))]\<rparr>)"
proof (cases "Deserialize lib proxy_config")
  case (Pair root error_message)
  show ?thesis
  proof (cases root)
    case None
    with Pair show ?thesis
      by (simp add: SetProxyConfigTask_Run_def bad_JSON_def)
  next
    case (Some v)
    with Pair assms have "\<forall>dict. v \<noteq> DictionaryValue dict" by simp
    with Pair Some show ?thesis
      by (cases v) (simp_all add: SetProxyConfigTask_Run_def bad_JSON_def)
  qed
qed

theorem malformed_proxy_config_is_logged_and_dropped_witness:
  "SetProxyConfigTask_Run example_library ''{no_proxy'' pac_configured =
     Inr (pac_configured
            \<lparr>io_log := [(LOG_WARNING,
                          ''Received bad JSON string for ProxyConfig: Syntax error'')]\<rparr>) \<and>
   SetProxyConfigTask_Run example_library list_document pac_configured =
     Inr (pac_configured
            \<lparr>io_log := [(LOG_WARNING, ''Received bad JSON string for ProxyConfig: '')]\<rparr>)"
proof -
  have d1: "Deserialize example_library ''{no_proxy'' = (None, ''Syntax error'')"
    by (simp add: example_library_def no_proxy_document_def pac_url_document_def
        list_document_def)
  have d2: "Deserialize example_library list_document = (Some (ListValue [IntegerValue 1]), [])"
    by (simp add: example_library_def no_proxy_document_def pac_url_document_def
        list_document_def)
  have l: "io_log pac_configured = []"
    by (simp add: pac_configured_def)
  have "\<forall>dict. fst (Deserialize example_library ''{no_proxy'') \<noteq> Some (DictionaryValue dict)"
    by (simp add: d1)
  from malformed_proxy_config_is_logged_and_dropped [OF this, of pac_configured]
  have r1: "SetProxyConfigTask_Run example_library ''{no_proxy'' pac_configured =
     Inr (pac_configured
            \<lparr>io_log := [(LOG_WARNING,
                          ''Received bad JSON string for ProxyConfig: Syntax error'')]\<rparr>)"
    by (simp add: d1 l)
  have "\<forall>dict. fst (Deserialize example_library list_document) \<noteq> Some (DictionaryValue dict)"
    by (simp add: d2)
  from malformed_proxy_config_is_logged_and_dropped [OF this, of pac_configured]
  have r2: "SetProxyConfigTask_Run example_library list_document pac_configured =
     Inr (pac_configured
            \<lparr>io_log := [(LOG_WARNING, ''Received bad JSON string for ProxyConfig: '')]\<rparr>)"
    by (simp add: d2 l)
  from r1 r2 show ?thesis by simp
qed




end
